theory Spec2Isabelle
  imports Complex_Main "HOL-Library.AList"
begin

section \<open>Configuration (processor\_config.py)\<close>

text \<open>
  The fields of the dataclass \<open>ProcessorConfig\<close> that the tracker, the ballistics gate,
  the rally decider and the segment builder read. Python floats are modelled as reals and
  Python ints as integers.
\<close>

record ProcessorConfig =
  process_noise_position :: real
  process_noise_velocity :: real
  measurement_noise :: real
  association_gate_threshold :: real
  max_missed_frames :: int
  min_tracking_confidence :: real
  confidence_decay_rate :: real
  confidence_boost_on_detection :: real
  enable_enhanced_physics :: bool
  min_points_for_fit :: int
  max_trajectory_error :: real
  gravity_acceleration :: real
  max_horizontal_velocity :: real
  max_vertical_velocity :: real
  physics_score_weight :: real
  smoothness_score_weight :: real
  continuity_score_weight :: real
  min_physics_score :: real
  rally_start_threshold :: real
  rally_end_threshold :: real
  min_rally_duration :: real
  max_gap_in_rally :: real
  rally_cooldown_period :: real
  min_contact_separation :: real
  velocity_change_threshold :: real
  rally_start_padding :: real
  rally_end_padding :: real
  min_segment_duration :: real
  max_segment_gap :: real
  segment_quality_threshold :: real

text \<open>The default values of the dataclass.\<close>

definition default_config :: ProcessorConfig where
  "default_config = \<lparr>
     process_noise_position = 1,
     process_noise_velocity = 1/2,
     measurement_noise = 10,
     association_gate_threshold = 50,
     max_missed_frames = 15,
     min_tracking_confidence = 3/10,
     confidence_decay_rate = 95/100,
     confidence_boost_on_detection = 1/10,
     enable_enhanced_physics = True,
     min_points_for_fit = 5,
     max_trajectory_error = 50,
     gravity_acceleration = 981/100,
     max_horizontal_velocity = 30,
     max_vertical_velocity = 20,
     physics_score_weight = 4/10,
     smoothness_score_weight = 3/10,
     continuity_score_weight = 3/10,
     min_physics_score = 1/2,
     rally_start_threshold = 7/10,
     rally_end_threshold = 3/10,
     min_rally_duration = 3/2,
     max_gap_in_rally = 1,
     rally_cooldown_period = 1/2,
     min_contact_separation = 3/10,
     velocity_change_threshold = 15,
     rally_start_padding = 1/2,
     rally_end_padding = 3/10,
     min_segment_duration = 2,
     max_segment_gap = 3/2,
     segment_quality_threshold = 6/10 \<rparr>"

text \<open>The exceptions of the Python code that the model keeps as values.\<close>

datatype error = AttributeError | IndexError | KeyError | ValueError | ZeroDivisionError


section \<open>SegmentBuilder (segment\_builder.py)\<close>

record TimeRange =
  tr_start :: real
  tr_end :: real

definition duration :: "TimeRange \<Rightarrow> real" where
  "duration r = tr_end r - tr_start r"

record SegmentBuilder =
  current_start :: "real option"
  ranges :: "TimeRange list"

definition new_segment_builder :: SegmentBuilder where
  "new_segment_builder = \<lparr> current_start = None, ranges = [] \<rparr>"

definition short_segment_threshold :: real where
  "short_segment_threshold = 5/2"

definition max_preroll_for_short :: real where
  "max_preroll_for_short = 1/2"

definition segment_reset :: "SegmentBuilder \<Rightarrow> SegmentBuilder" where
  "segment_reset s = s\<lparr> current_start := None, ranges := [] \<rparr>"

definition append_padded :: "SegmentBuilder \<Rightarrow> real \<Rightarrow> real \<Rightarrow> SegmentBuilder" where
  "append_padded s st en = s\<lparr> ranges := ranges s @ [\<lparr> tr_start = st, tr_end = en \<rparr>] \<rparr>"

definition close_segment :: "ProcessorConfig \<Rightarrow> SegmentBuilder \<Rightarrow> real \<Rightarrow> real \<Rightarrow> SegmentBuilder" where
  "close_segment cfg s st en =
     (let raw_duration = en - st;
          effective_preroll =
            (if raw_duration < short_segment_threshold
             then min (rally_start_padding cfg) max_preroll_for_short
             else rally_start_padding cfg);
          padded_start = max 0 (st - effective_preroll);
          padded_end = en + rally_end_padding cfg
      in s\<lparr> ranges := ranges s @ [\<lparr> tr_start = padded_start, tr_end = padded_end \<rparr>] \<rparr>)"

definition append_raw :: "ProcessorConfig \<Rightarrow> SegmentBuilder \<Rightarrow> real \<Rightarrow> real \<Rightarrow> SegmentBuilder" where
  "append_raw cfg s st en = close_segment cfg s st en"

definition observe :: "ProcessorConfig \<Rightarrow> SegmentBuilder \<Rightarrow> bool \<Rightarrow> real \<Rightarrow> SegmentBuilder" where
  "observe cfg s is_active time =
     (if is_active then
        (case current_start s of
           None \<Rightarrow> s\<lparr> current_start := Some time \<rparr>
         | Some _ \<Rightarrow> s)
      else
        (case current_start s of
           Some cs \<Rightarrow> (close_segment cfg s cs time)\<lparr> current_start := None \<rparr>
         | None \<Rightarrow> s\<lparr> current_start := None \<rparr>))"

definition gap_between :: "TimeRange \<Rightarrow> TimeRange \<Rightarrow> real" where
  "gap_between range1 range2 = max 0 (tr_start range2 - tr_end range1)"

text \<open>The clamping loop of \<open>finalize\<close>: ranges that are empty after clamping are dropped.\<close>

fun clamp_ranges :: "real \<Rightarrow> TimeRange list \<Rightarrow> TimeRange list" where
  "clamp_ranges video_duration [] = []"
| "clamp_ranges video_duration (r # rs) =
     (let st = max 0 (tr_start r); en = min video_duration (tr_end r)
      in if en > st then \<lparr> tr_start = st, tr_end = en \<rparr> # clamp_ranges video_duration rs
         else clamp_ranges video_duration rs)"

text \<open>
  The merge loop of \<open>finalize\<close>; the first list is \<open>merged_ranges\<close>, whose last element
  is popped and replaced when the gap to the next range is small enough.
\<close>

fun merge_loop :: "ProcessorConfig \<Rightarrow> TimeRange list \<Rightarrow> TimeRange list \<Rightarrow> TimeRange list" where
  "merge_loop cfg merged [] = merged"
| "merge_loop cfg merged (r # rs) =
     (if merged \<noteq> [] \<and> gap_between (last merged) r \<le> max_segment_gap cfg
      then merge_loop cfg
             (butlast merged @
                [\<lparr> tr_start = tr_start (last merged),
                   tr_end = max (tr_end (last merged)) (tr_end r) \<rparr>]) rs
      else merge_loop cfg (merged @ [r]) rs)"

text \<open>
  \<open>finalize\<close> returns the builder (an open segment is closed, which appends to
  \<open>ranges\<close>) and the list of final ranges. Python's \<open>list.sort\<close> is stable, as is
  \<open>sort_key\<close>.
\<close>

definition finalize :: "ProcessorConfig \<Rightarrow> SegmentBuilder \<Rightarrow> real \<Rightarrow> SegmentBuilder \<times> TimeRange list" where
  "finalize cfg s video_duration =
     (let s1 = (case current_start s of
                  Some cs \<Rightarrow> (close_segment cfg s cs video_duration)\<lparr> current_start := None \<rparr>
                | None \<Rightarrow> s);
          clamped_ranges = clamp_ranges video_duration (ranges s1);
          sorted_ranges = sort_key tr_start clamped_ranges;
          merged_ranges = merge_loop cfg [] sorted_ranges;
          final_ranges = filter (\<lambda>r. duration r \<ge> min_segment_duration cfg) merged_ranges
      in (s1, final_ranges))"

text \<open>
  The property claimed of the finalized list: sorted by start time, pairwise
  non-overlapping, every range inside \<open>[0, video_duration]\<close> and at least of the
  configured minimum duration.
\<close>

definition finalized_ok :: "ProcessorConfig \<Rightarrow> real \<Rightarrow> TimeRange list \<Rightarrow> bool" where
  "finalized_ok cfg video_duration rs \<longleftrightarrow>
     sorted (map tr_start rs) \<and>
     sorted_wrt (\<lambda>a b. tr_end a \<le> tr_start b) rs \<and>
     list_all (\<lambda>r. 0 \<le> tr_start r \<and> tr_end r \<le> video_duration \<and>
                    min_segment_duration cfg \<le> duration r) rs"

text \<open>What the merge loop maintains: a chain of proper ranges inside the video, each ending
  before the next starts.\<close>

definition chain :: "real \<Rightarrow> TimeRange list \<Rightarrow> bool" where
  "chain vd rs \<longleftrightarrow>
     sorted_wrt (\<lambda>a b. tr_end a < tr_start b) rs \<and>
     (\<forall>r \<in> set rs. 0 \<le> tr_start r \<and> tr_start r < tr_end r \<and> tr_end r \<le> vd)"


section \<open>Result values of the ballistics gate (ballistics\_gate.py)\<close>

record TrajectoryPoint =
  pt_x :: real
  pt_y :: real
  pt_time :: real
  pt_confidence :: real

record QuadraticFit =
  fit_a :: real
  fit_b :: real
  fit_c :: real
  r_squared :: real
  residual_error :: real
  point_count :: int
  vertex_x :: real
  vertex_y :: real
  opens_downward :: bool

record PhysicsValidation =
  is_valid :: bool
  physics_score :: real
  trajectory_score :: real
  velocity_score :: real
  gravity_score :: real
  smoothness_score :: real
  quadratic_fit :: "QuadraticFit option"
  max_velocity :: real
  gravity_consistency :: real
  trajectory_length :: real


section \<open>BallisticsGate (ballistics\_gate.py)\<close>

text \<open>
  \<open>np.polyfit(x, y, 2)\<close> is a routine of numpy, not of this repository: it is a
  parameter of the model. It gives the coefficients \<open>(a, b, c)\<close> of the fitted
  parabola, or raises \<open>LinAlgError\<close> or \<open>ValueError\<close>, which
  \<open>_fit_quadratic_trajectory\<close> catches; \<open>None\<close> stands for that.
\<close>

type_synonym polyfit = "real list \<Rightarrow> real list \<Rightarrow> (real \<times> real \<times> real) option"

text \<open>\<open>np.mean\<close> and \<open>np.var\<close> (the population variance) of a list.\<close>

definition mean :: "real list \<Rightarrow> real" where
  "mean xs = sum_list xs / real (length xs)"

definition variance :: "real list \<Rightarrow> real" where
  "variance xs = mean (map (\<lambda>x. (x - mean xs) * (x - mean xs)) xs)"

definition fit_quadratic_trajectory :: "polyfit \<Rightarrow> TrajectoryPoint list \<Rightarrow> QuadraticFit option" where
  "fit_quadratic_trajectory np_polyfit points =
     (if length points < 3 then None
      else
        let x_coords = map pt_x points;
            y_coords = map pt_y points
        in case np_polyfit x_coords y_coords of
             None \<Rightarrow> None
           | Some (a, b, c) \<Rightarrow>
               let y_pred = map (\<lambda>x. (a * x + b) * x + c) x_coords;
                   squared_residuals = map2 (\<lambda>y p. (y - p) * (y - p)) y_coords y_pred;
                   ss_res = sum_list squared_residuals;
                   ss_tot = sum_list (map (\<lambda>y. (y - mean y_coords) * (y - mean y_coords)) y_coords);
                   r2 = (if ss_tot > 0 then 1 - ss_res / ss_tot else 0);
                   residual = sqrt (mean squared_residuals);
                   vx = (if a \<noteq> 0 then - b / (2 * a) else 0);
                   vy = a * (vx * vx) + b * vx + c
               in Some \<lparr> fit_a = a, fit_b = b, fit_c = c,
                          r_squared = r2, residual_error = residual,
                          point_count = int (length points),
                          vertex_x = vx, vertex_y = vy, opens_downward = (a < 0) \<rparr>)"

text \<open>
  The loop of \<open>_validate_velocity_constraints\<close> over consecutive points, with the
  counters \<open>valid_velocities\<close> and \<open>total_velocities\<close>. The division by
  \<open>pixels_per_meter\<close> is a division of Python floats: it raises \<open>ZeroDivisionError\<close>
  when the divisor is zero.
\<close>

fun velocity_loop ::
  "ProcessorConfig \<Rightarrow> real \<Rightarrow> (TrajectoryPoint \<times> TrajectoryPoint) list \<Rightarrow> int \<times> int \<Rightarrow> error + int \<times> int" where
  "velocity_loop cfg pixels_per_meter [] counters = Inr counters"
| "velocity_loop cfg pixels_per_meter ((prev, cur) # rest) (valid_velocities, total_velocities) =
     (let dt = pt_time cur - pt_time prev
      in if dt \<le> 0 then velocity_loop cfg pixels_per_meter rest (valid_velocities, total_velocities)
         else if pixels_per_meter = 0 then Inl ZeroDivisionError
         else
           let vel_x_mps = ((pt_x cur - pt_x prev) / dt) / pixels_per_meter;
               vel_y_mps = ((pt_y cur - pt_y prev) / dt) / pixels_per_meter
           in velocity_loop cfg pixels_per_meter rest
                (if \<bar>vel_x_mps\<bar> \<le> max_horizontal_velocity cfg
                    \<and> \<bar>vel_y_mps\<bar> \<le> max_vertical_velocity cfg
                 then valid_velocities + 1 else valid_velocities,
                 total_velocities + 1))"

text \<open>The pairs \<open>(points[i-1], points[i])\<close> for \<open>i\<close> from 1.\<close>

definition consecutive :: "'a list \<Rightarrow> ('a \<times> 'a) list" where
  "consecutive xs = zip xs (tl xs)"

definition validate_velocity_constraints ::
  "ProcessorConfig \<Rightarrow> TrajectoryPoint list \<Rightarrow> real \<Rightarrow> error + real" where
  "validate_velocity_constraints cfg points pixels_per_meter =
     (if length points < 2 then Inr 1
      else
        case velocity_loop cfg pixels_per_meter (consecutive points) (0, 0) of
          Inl e \<Rightarrow> Inl e
        | Inr (valid_velocities, total_velocities) \<Rightarrow>
            Inr (if total_velocities > 0
                 then real_of_int valid_velocities / real_of_int total_velocities else 1))"

definition validate_gravity_consistency ::
  "TrajectoryPoint list \<Rightarrow> QuadraticFit option \<Rightarrow> real" where
  "validate_gravity_consistency points quad_fit =
     (case quad_fit of
        None \<Rightarrow> 1/2
      | Some fit \<Rightarrow>
          if length points < 3 then 1/2
          else
            let direction_score = (if fit_a fit < 0 then 1 else 0);
                curvature_magnitude = \<bar>fit_a fit\<bar>;
                lo = 1/10000;
                hi = 1/100;
                magnitude_score =
                  (if lo \<le> curvature_magnitude \<and> curvature_magnitude \<le> hi then 1
                   else max 0 (min 1 (if curvature_magnitude < lo
                                      then curvature_magnitude / lo
                                      else hi / curvature_magnitude)))
            in (direction_score + magnitude_score) / 2)"

text \<open>The acceleration magnitudes of \<open>_calculate_smoothness_score\<close>, one for each
  interior point whose two time steps are positive.\<close>

fun accelerations :: "TrajectoryPoint list \<Rightarrow> real list" where
  "accelerations (p0 # p1 # p2 # rest) =
     (let dt1 = pt_time p1 - pt_time p0;
          dt2 = pt_time p2 - pt_time p1
      in if dt1 \<le> 0 \<or> dt2 \<le> 0 then accelerations (p1 # p2 # rest)
         else
           let vel1_x = (pt_x p1 - pt_x p0) / dt1;
               vel1_y = (pt_y p1 - pt_y p0) / dt1;
               vel2_x = (pt_x p2 - pt_x p1) / dt2;
               vel2_y = (pt_y p2 - pt_y p1) / dt2;
               acc_x = (vel2_x - vel1_x) / ((dt1 + dt2) / 2);
               acc_y = (vel2_y - vel1_y) / ((dt1 + dt2) / 2)
           in sqrt (acc_x * acc_x + acc_y * acc_y) # accelerations (p1 # p2 # rest))"
| "accelerations points = []"

definition calculate_smoothness_score :: "TrajectoryPoint list \<Rightarrow> real" where
  "calculate_smoothness_score points =
     (if length points < 3 then 1
      else
        let accs = accelerations points
        in if accs = [] then 1
           else
             let max_reasonable_variance = 10000;
                 smoothness = max 0 (1 - variance accs / max_reasonable_variance)
             in min 1 smoothness)"

text \<open>
  \<open>_evaluate_trajectory_fit\<close>. The residual error is a numpy float, so its division
  by a zero \<open>max_trajectory_error\<close> does not raise: it gives infinity or NaN, and
  \<open>max(0.0, ...)\<close> of one minus either is \<open>0.0\<close>.
\<close>

definition evaluate_trajectory_fit :: "ProcessorConfig \<Rightarrow> QuadraticFit option \<Rightarrow> real" where
  "evaluate_trajectory_fit cfg quad_fit =
     (case quad_fit of
        None \<Rightarrow> 0
      | Some fit \<Rightarrow>
          let r_squared_score = max 0 (r_squared fit);
              error_score =
                (if max_trajectory_error cfg = 0 then 0
                 else max 0 (1 - residual_error fit / max_trajectory_error cfg));
              min_points = min_points_for_fit cfg;
              ideal_points = min_points * 2;
              point_score =
                (if ideal_points > min_points
                 then min 1 (real_of_int (point_count fit - min_points)
                               / real_of_int (ideal_points - min_points))
                 else 1);
              score = r_squared_score * (5/10) + error_score * (3/10) + point_score * (2/10)
          in max 0 (min 1 score))"

fun max_velocity_loop :: "(TrajectoryPoint \<times> TrajectoryPoint) list \<Rightarrow> real \<Rightarrow> real" where
  "max_velocity_loop [] max_vel = max_vel"
| "max_velocity_loop ((prev, cur) # rest) max_vel =
     (let dt = pt_time cur - pt_time prev
      in if dt \<le> 0 then max_velocity_loop rest max_vel
         else
           let dx = pt_x cur - pt_x prev;
               dy = pt_y cur - pt_y prev;
               velocity = sqrt (dx * dx + dy * dy) / dt
           in max_velocity_loop rest (max max_vel velocity))"

definition calculate_max_velocity :: "TrajectoryPoint list \<Rightarrow> real" where
  "calculate_max_velocity points = max_velocity_loop (consecutive points) 0"

text \<open>
  \<open>_calculate_trajectory_length\<close>; here too a zero \<open>pixels_per_meter\<close> is a
  \<open>ZeroDivisionError\<close>.
\<close>

fun trajectory_length_loop ::
  "real \<Rightarrow> (TrajectoryPoint \<times> TrajectoryPoint) list \<Rightarrow> real \<Rightarrow> error + real" where
  "trajectory_length_loop pixels_per_meter [] total_length = Inr total_length"
| "trajectory_length_loop pixels_per_meter ((prev, cur) # rest) total_length =
     (if pixels_per_meter = 0 then Inl ZeroDivisionError
      else
        let dx = pt_x cur - pt_x prev;
            dy = pt_y cur - pt_y prev;
            segment_length = sqrt (dx * dx + dy * dy) / pixels_per_meter
        in trajectory_length_loop pixels_per_meter rest (total_length + segment_length))"

definition calculate_trajectory_length :: "TrajectoryPoint list \<Rightarrow> real \<Rightarrow> error + real" where
  "calculate_trajectory_length points pixels_per_meter =
     trajectory_length_loop pixels_per_meter (consecutive points) 0"

definition create_invalid_result :: PhysicsValidation where
  "create_invalid_result = \<lparr> is_valid = False, physics_score = 0,
     trajectory_score = 0, velocity_score = 0, gravity_score = 0, smoothness_score = 0,
     quadratic_fit = None, max_velocity = 0, gravity_consistency = 0, trajectory_length = 0 \<rparr>"

text \<open>
  \<open>validate_trajectory\<close> reads \<open>self.config.trajectory_score_weight\<close>.
  \<open>ProcessorConfig\<close> is a dataclass that declares no field of that name (its scoring
  weights are \<open>physics_score_weight\<close>, \<open>smoothness_score_weight\<close> and
  \<open>continuity_score_weight\<close>) and nothing in the repository sets one: reading the
  attribute raises \<open>AttributeError\<close>.
\<close>

definition trajectory_score_weight :: "ProcessorConfig \<Rightarrow> error + real" where
  "trajectory_score_weight cfg = Inl AttributeError"

definition validate_trajectory ::
  "polyfit \<Rightarrow> ProcessorConfig \<Rightarrow> TrajectoryPoint list \<Rightarrow> real \<Rightarrow> error + PhysicsValidation" where
  "validate_trajectory np_polyfit cfg points pixels_per_meter =
     (if \<not> enable_enhanced_physics cfg then
        Inr \<lparr> is_valid = True, physics_score = 1,
              trajectory_score = 1, velocity_score = 1, gravity_score = 1, smoothness_score = 1,
              quadratic_fit = None, max_velocity = 0, gravity_consistency = 1,
              trajectory_length = 0 \<rparr>
      else if int (length points) < min_points_for_fit cfg then Inr create_invalid_result
      else
        let quad_fit = fit_quadratic_trajectory np_polyfit points
        in case validate_velocity_constraints cfg points pixels_per_meter of
             Inl e \<Rightarrow> Inl e
           | Inr velocity \<Rightarrow>
               let gravity = validate_gravity_consistency points quad_fit;
                   smoothness = calculate_smoothness_score points;
                   trajectory = evaluate_trajectory_fit cfg quad_fit
               in case trajectory_score_weight cfg of
                    Inl e \<Rightarrow> Inl e
                  | Inr weight \<Rightarrow>
                      let score = weight * trajectory
                                  + physics_score_weight cfg * (velocity + gravity) / 2
                                  + smoothness_score_weight cfg * smoothness;
                          valid =
                            (score \<ge> min_physics_score cfg \<and>
                             (case quad_fit of
                                None \<Rightarrow> False
                              | Some fit \<Rightarrow> residual_error fit \<le> max_trajectory_error cfg))
                      in case calculate_trajectory_length points pixels_per_meter of
                           Inl e \<Rightarrow> Inl e
                         | Inr len \<Rightarrow>
                             Inr \<lparr> is_valid = valid, physics_score = score,
                                   trajectory_score = trajectory, velocity_score = velocity,
                                   gravity_score = gravity, smoothness_score = smoothness,
                                   quadratic_fit = quad_fit,
                                   max_velocity = calculate_max_velocity points,
                                   gravity_consistency = gravity,
                                   trajectory_length = len \<rparr>)"


section \<open>RallyDecider (rally\_decider.py)\<close>

datatype RallyState = IDLE | POTENTIAL | ACTIVE | ENDING

text \<open>
  The reason of an event is a formatted string in the source; the model keeps which of
  the five formats was chosen (the number printed is the event's confidence).
\<close>

datatype TransitionReason =
  ConfidenceRising | RallyConfirmed | RallyEnding | ReturningToIdle | StateChange

record RallyEvent =
  ev_timestamp :: real
  old_state :: RallyState
  new_state :: RallyState
  ev_confidence :: real
  reason :: TransitionReason

record RallyPeriod =
  start_time :: real
  end_time :: real
  rally_duration :: real
  max_confidence :: real
  avg_confidence :: real
  rally_contacts :: int
  quality_score :: real

record RallyContext =
  current_time :: real
  detection_confidence :: real
  tracking_confidence :: real
  physics_validation :: "PhysicsValidation option"
  velocity_magnitude :: real
  time_since_last_detection :: real
  consecutive_detections :: int

text \<open>
  The attributes of a \<open>RallyDecider\<close>. \<open>last_contact_time\<close> is not set by the
  constructor: the attribute exists only after the first counted contact, which the code
  tests with \<open>hasattr\<close>; \<open>None\<close> stands for the missing attribute.
\<close>

record RallyDecider =
  current_state :: RallyState
  state_start_time :: real
  last_state_change_time :: real
  rally_confidence_history :: "(real \<times> real) list"
  last_high_confidence_time :: real
  last_detection_time :: real
  current_rally_start :: real
  current_rally_confidence_sum :: real
  current_rally_confidence_count :: int
  current_rally_max_confidence :: real
  estimated_contacts :: int
  completed_rallies :: "RallyPeriod list"
  state_change_events :: "RallyEvent list"
  last_velocity_magnitude :: real
  velocity_history :: "(real \<times> real) list"
  last_contact_time :: "real option"

definition new_rally_decider :: RallyDecider where
  "new_rally_decider = \<lparr>
     current_state = IDLE,
     state_start_time = 0,
     last_state_change_time = 0,
     rally_confidence_history = [],
     last_high_confidence_time = 0,
     last_detection_time = 0,
     current_rally_start = 0,
     current_rally_confidence_sum = 0,
     current_rally_confidence_count = 0,
     current_rally_max_confidence = 0,
     estimated_contacts = 0,
     completed_rallies = [],
     state_change_events = [],
     last_velocity_magnitude = 0,
     velocity_history = [],
     last_contact_time = None \<rparr>"

definition calculate_temporal_confidence :: "RallyDecider \<Rightarrow> real \<Rightarrow> real" where
  "calculate_temporal_confidence s now =
     (if rally_confidence_history s = [] then 0
      else
        let recent_window = 2;
            recent_confidences =
              map snd (filter (\<lambda>(time, conf). now - time \<le> recent_window)
                         (rally_confidence_history s))
        in if recent_confidences = [] then 0
           else
             let avg_recent_conf =
                   sum_list recent_confidences / real (length recent_confidences);
                 consistency_bonus =
                   (if length recent_confidences \<ge> 5
                    then (real (length (filter (\<lambda>conf. conf > 6/10) recent_confidences))
                            / real (length recent_confidences)) * (2/10)
                    else 0)
             in min 1 (avg_recent_conf + consistency_bonus))"

definition calculate_motion_confidence :: "real \<Rightarrow> real" where
  "calculate_motion_confidence v =
     (let min_reasonable_vel = 10; max_reasonable_vel = 200
      in if v = 0 then 0
         else if min_reasonable_vel \<le> v \<and> v \<le> max_reasonable_vel then 1
         else if v < min_reasonable_vel then v / min_reasonable_vel
         else max 0 (1 - (v - max_reasonable_vel) / max_reasonable_vel))"

definition calculate_rally_confidence :: "RallyDecider \<Rightarrow> RallyContext \<Rightarrow> real" where
  "calculate_rally_confidence s context =
     (let detection_conf =
            (if detection_confidence context > 0 then detection_confidence context else 0);
          tracking_conf =
            (if tracking_confidence context > 0 then tracking_confidence context else 0);
          physics_conf =
            (case physics_validation context of
               None \<Rightarrow> 0
             | Some pv \<Rightarrow> if is_valid pv then physics_score pv else 0);
          temporal_conf = calculate_temporal_confidence s (current_time context);
          motion_conf = calculate_motion_confidence (velocity_magnitude context);
          rally_confidence =
            (4/10) * detection_conf + (2/10) * tracking_conf + (2/10) * physics_conf
              + (1/10) * temporal_conf + (1/10) * motion_conf
      in max 0 (min 1 rally_confidence))"

definition determine_new_state :: "ProcessorConfig \<Rightarrow> RallyDecider \<Rightarrow> real \<Rightarrow> RallyContext \<Rightarrow> RallyState" where
  "determine_new_state cfg s rally_confidence context =
     (let time_in_state = current_time context - state_start_time s
      in case current_state s of
           IDLE \<Rightarrow>
             if rally_confidence > rally_end_threshold cfg then POTENTIAL else IDLE
         | POTENTIAL \<Rightarrow>
             if rally_confidence \<ge> rally_start_threshold cfg then ACTIVE
             else if rally_confidence \<le> rally_end_threshold cfg \<and> time_in_state > 1 then IDLE
             else POTENTIAL
         | ACTIVE \<Rightarrow>
             if rally_confidence \<le> rally_end_threshold cfg
                \<and> time_since_last_detection context > max_gap_in_rally cfg
             then ENDING else ACTIVE
         | ENDING \<Rightarrow>
             if rally_confidence \<ge> rally_start_threshold cfg then ACTIVE
             else if time_in_state > rally_cooldown_period cfg then IDLE
             else ENDING)"

definition get_transition_reason :: "RallyState \<Rightarrow> RallyState \<Rightarrow> TransitionReason" where
  "get_transition_reason old new =
     (if old = IDLE \<and> new = POTENTIAL then ConfidenceRising
      else if old = POTENTIAL \<and> new = ACTIVE then RallyConfirmed
      else if old = ACTIVE \<and> new = ENDING then RallyEnding
      else if new = IDLE then ReturningToIdle
      else StateChange)"

definition start_rally :: "RallyDecider \<Rightarrow> real \<Rightarrow> RallyDecider" where
  "start_rally s timestamp =
     s\<lparr> current_rally_start := timestamp,
        current_rally_confidence_sum := 0,
        current_rally_confidence_count := 0,
        current_rally_max_confidence := 0,
        estimated_contacts := 0 \<rparr>"

definition calculate_rally_quality :: "RallyDecider \<Rightarrow> real \<Rightarrow> real \<Rightarrow> real" where
  "calculate_rally_quality s dur avg_conf =
     (let duration_score = min 1 (dur / 10);
          confidence_score = avg_conf;
          contact_score = min 1 (real_of_int (estimated_contacts s) / 10)
      in duration_score * (3/10) + confidence_score * (4/10) + contact_score * (3/10))"

definition end_rally :: "ProcessorConfig \<Rightarrow> RallyDecider \<Rightarrow> real \<Rightarrow> RallyDecider" where
  "end_rally cfg s timestamp =
     (if current_rally_confidence_count s > 0 then
        let dur = timestamp - current_rally_start s;
            avg_conf = current_rally_confidence_sum s
                         / real_of_int (current_rally_confidence_count s)
        in if dur \<ge> min_rally_duration cfg then
             s\<lparr> completed_rallies := completed_rallies s @
                  [\<lparr> start_time = current_rally_start s,
                     end_time = timestamp,
                     rally_duration = dur,
                     max_confidence = current_rally_max_confidence s,
                     avg_confidence = avg_conf,
                     rally_contacts = estimated_contacts s,
                     quality_score = calculate_rally_quality s dur avg_conf \<rparr>] \<rparr>
           else s
      else s)"

definition transition_to_state :: "ProcessorConfig \<Rightarrow> RallyDecider \<Rightarrow> RallyState \<Rightarrow> real \<Rightarrow> real \<Rightarrow> RallyDecider" where
  "transition_to_state cfg s new confidence timestamp =
     (let old = current_state s;
          event = \<lparr> ev_timestamp = timestamp, old_state = old, new_state = new,
                    ev_confidence = confidence, reason = get_transition_reason old new \<rparr>;
          s1 = s\<lparr> state_change_events := state_change_events s @ [event] \<rparr>;
          s2 = (if new = ACTIVE \<and> old \<noteq> ACTIVE then start_rally s1 timestamp
                else if old = ACTIVE \<and> new \<noteq> ACTIVE then end_rally cfg s1 timestamp
                else s1)
      in s2\<lparr> current_state := new,
             state_start_time := timestamp,
             last_state_change_time := timestamp \<rparr>)"

definition update_confidence_history :: "RallyDecider \<Rightarrow> RallyContext \<Rightarrow> RallyDecider" where
  "update_confidence_history s context =
     (let h = rally_confidence_history s
                @ [(current_time context, detection_confidence context)];
          h1 = (if length h > 100 then tl h else h);
          s1 = s\<lparr> rally_confidence_history := h1 \<rparr>;
          s2 = (if detection_confidence context > 7/10
                then s1\<lparr> last_high_confidence_time := current_time context \<rparr> else s1)
      in if detection_confidence context > 0
         then s2\<lparr> last_detection_time := current_time context \<rparr> else s2)"

definition update_velocity_tracking :: "ProcessorConfig \<Rightarrow> RallyDecider \<Rightarrow> RallyContext \<Rightarrow> RallyDecider" where
  "update_velocity_tracking cfg s context =
     (let current_vel = velocity_magnitude context;
          now = current_time context;
          h = velocity_history s @ [(now, current_vel)];
          h1 = (if length h > 50 then tl h else h);
          s1 = s\<lparr> velocity_history := h1 \<rparr>;
          s2 = (if last_velocity_magnitude s1 > 0
                   \<and> \<bar>current_vel - last_velocity_magnitude s1\<bar> > velocity_change_threshold cfg
                then
                  (if (case last_contact_time s1 of
                         None \<Rightarrow> True
                       | Some t \<Rightarrow> now - t > min_contact_separation cfg)
                   then s1\<lparr> estimated_contacts := estimated_contacts s1 + 1,
                            last_contact_time := Some now \<rparr>
                   else s1)
                else s1)
      in s2\<lparr> last_velocity_magnitude := current_vel \<rparr>)"

definition update_rally_tracking :: "RallyDecider \<Rightarrow> real \<Rightarrow> RallyDecider" where
  "update_rally_tracking s rally_confidence =
     (if current_state s = ACTIVE then
        s\<lparr> current_rally_confidence_sum := current_rally_confidence_sum s + rally_confidence,
           current_rally_confidence_count := current_rally_confidence_count s + 1,
           current_rally_max_confidence := max (current_rally_max_confidence s) rally_confidence \<rparr>
      else s)"

text \<open>
  The part of \<open>update\<close> that follows the computation of the rally confidence: the state
  machine proper.
\<close>

definition state_machine_step :: "ProcessorConfig \<Rightarrow> RallyDecider \<Rightarrow> real \<Rightarrow> RallyContext \<Rightarrow> RallyDecider" where
  "state_machine_step cfg s rally_confidence context =
     (let new = determine_new_state cfg s rally_confidence context;
          s1 = (if new \<noteq> current_state s
                then transition_to_state cfg s new rally_confidence (current_time context)
                else s)
      in update_rally_tracking s1 rally_confidence)"

text \<open>\<open>RallyDecider.update\<close>; the state it returns is \<open>current_state\<close> of the result.\<close>

definition rally_update :: "ProcessorConfig \<Rightarrow> RallyDecider \<Rightarrow> RallyContext \<Rightarrow> RallyDecider" where
  "rally_update cfg s context =
     (let s1 = update_confidence_history s context;
          s2 = update_velocity_tracking cfg s1 context;
          rally_confidence = calculate_rally_confidence s2 context
      in state_machine_step cfg s2 rally_confidence context)"

definition rally_reset :: "RallyDecider \<Rightarrow> RallyDecider" where
  "rally_reset s =
     s\<lparr> current_state := IDLE,
        state_start_time := 0,
        rally_confidence_history := [],
        completed_rallies := [],
        state_change_events := [],
        estimated_contacts := 0 \<rparr>"

text \<open>A sequence of \<open>update\<close> calls.\<close>

fun rally_run :: "ProcessorConfig \<Rightarrow> RallyDecider \<Rightarrow> RallyContext list \<Rightarrow> RallyDecider" where
  "rally_run cfg s [] = s"
| "rally_run cfg s (c # cs) = rally_run cfg (rally_update cfg s c) cs"

text \<open>
  Feeding rally confidences to the state machine: each sample is a confidence with the
  context of its frame; the result lists the state after each sample.
\<close>

fun feed_confidences :: "ProcessorConfig \<Rightarrow> RallyDecider \<Rightarrow> (real \<times> RallyContext) list \<Rightarrow> RallyState list" where
  "feed_confidences cfg s [] = []"
| "feed_confidences cfg s ((rc, c) # rest) =
     (let s1 = state_machine_step cfg s rc c
      in current_state s1 # feed_confidences cfg s1 rest)"


section \<open>KalmanBallTracker (kalman\_ball\_tracker.py)\<close>

subsection \<open>Vectors and matrices\<close>

text \<open>
  numpy arrays are lists of reals (vectors) and lists of rows (matrices); \<open>@\<close> on arrays
  is the matrix product.
\<close>

type_synonym vec = "real list"
type_synonym matrix = "real list list"

definition dot :: "vec \<Rightarrow> vec \<Rightarrow> real" where
  "dot u v = sum_list (map2 (*) u v)"

definition mat_vec :: "matrix \<Rightarrow> vec \<Rightarrow> vec" where
  "mat_vec A v = map (\<lambda>row. dot row v) A"

definition vec_mat :: "vec \<Rightarrow> matrix \<Rightarrow> vec" where
  "vec_mat v A = map (dot v) (transpose A)"

definition mat_mul :: "matrix \<Rightarrow> matrix \<Rightarrow> matrix" where
  "mat_mul A B = map (\<lambda>row. vec_mat row B) A"

definition vec_add :: "vec \<Rightarrow> vec \<Rightarrow> vec" where
  "vec_add u v = map2 (+) u v"

definition vec_sub :: "vec \<Rightarrow> vec \<Rightarrow> vec" where
  "vec_sub u v = map2 (-) u v"

definition mat_add :: "matrix \<Rightarrow> matrix \<Rightarrow> matrix" where
  "mat_add A B = map2 vec_add A B"

definition mat_sub :: "matrix \<Rightarrow> matrix \<Rightarrow> matrix" where
  "mat_sub A B = map2 vec_sub A B"

definition eye4 :: matrix where
  "eye4 = [[1, 0, 0, 0], [0, 1, 0, 0], [0, 0, 1, 0], [0, 0, 0, 1]]"

text \<open>
  \<open>np.linalg.inv\<close> of a 2 by 2 matrix: \<open>None\<close> stands for \<open>LinAlgError\<close>, raised for a
  singular matrix (and for an array that is not square).
\<close>

fun linalg_inv :: "matrix \<Rightarrow> matrix option" where
  "linalg_inv [[a, b], [c, d]] =
     (let dt = a * d - b * c
      in if dt = 0 then None
         else Some [[d / dt, - b / dt], [- c / dt, a / dt]])"
| "linalg_inv M = None"

text \<open>
  \<open>np.linalg.pinv\<close> of a 2 by 2 matrix, the Moore-Penrose inverse: the inverse of a
  regular matrix, the transpose divided by the sum of the squared entries for a matrix of
  rank one, and zero for the zero matrix. Its only argument in the code is the
  innovation covariance, which is 2 by 2 whenever the covariance of the track is 4 by 4;
  the last equation makes the function total, and nothing is proved from it.
\<close>

fun linalg_pinv :: "matrix \<Rightarrow> matrix" where
  "linalg_pinv [[a, b], [c, d]] =
     (let dt = a * d - b * c
      in if dt \<noteq> 0 then [[d / dt, - b / dt], [- c / dt, a / dt]]
         else let n = a * a + b * b + c * c + d * d
              in if n = 0 then [[0, 0], [0, 0]]
                 else [[a / n, c / n], [b / n, d / n]])"
| "linalg_pinv M = M"

text \<open>\<open>math.sqrt\<close> raises \<open>ValueError\<close> on a negative argument.\<close>

definition math_sqrt :: "real \<Rightarrow> error + real" where
  "math_sqrt x = (if x < 0 then Inl ValueError else Inr (sqrt x))"

subsection \<open>Tracker state\<close>

text \<open>A detection is the tuple \<open>(x, y, confidence)\<close>.\<close>

type_synonym detection = "real \<times> real \<times> real"

record TrackingState =
  state :: vec
  covariance :: matrix
  confidence :: real
  last_detection_frame :: int
  prediction_count :: int
  track_id :: int
  age :: int

text \<open>
  The attributes of a \<open>KalmanBallTracker\<close>. The dictionary \<open>tracks\<close> is an association
  list in insertion order, which is the order in which Python iterates over it.
  \<open>current_detections\<close> is the attribute \<open>_current_detections\<close>: the constructor does
  not set it, and \<open>None\<close> stands for the missing attribute.
\<close>

record KalmanBallTracker =
  tracks :: "(int \<times> TrackingState) list"
  next_track_id :: int
  frame_count :: int
  current_detections :: "detection list option"

definition new_tracker :: KalmanBallTracker where
  "new_tracker = \<lparr> tracks = [], next_track_id = 0, frame_count = 0, current_detections = None \<rparr>"

definition tracker_reset :: "KalmanBallTracker \<Rightarrow> KalmanBallTracker" where
  "tracker_reset s = s\<lparr> tracks := [], next_track_id := 0, frame_count := 0 \<rparr>"

text \<open>The filter matrices of the constructor; the time step \<open>dt\<close> is 1.\<close>

definition F_mat :: matrix where
  "F_mat = [[1, 0, 1, 0], [0, 1, 0, 1], [0, 0, 1, 0], [0, 0, 0, 1]]"

definition H_mat :: matrix where
  "H_mat = [[1, 0, 0, 0], [0, 1, 0, 0]]"

definition Q_mat :: "ProcessorConfig \<Rightarrow> matrix" where
  "Q_mat cfg = [[process_noise_position cfg, 0, 0, 0],
                [0, process_noise_position cfg, 0, 0],
                [0, 0, process_noise_velocity cfg, 0],
                [0, 0, 0, process_noise_velocity cfg]]"

definition R_mat :: "ProcessorConfig \<Rightarrow> matrix" where
  "R_mat cfg = [[measurement_noise cfg, 0], [0, measurement_noise cfg]]"

text \<open>The list that \<open>update\<close> returns: the values of the dictionary.\<close>

definition tracking_states :: "KalmanBallTracker \<Rightarrow> TrackingState list" where
  "tracking_states s = map snd (tracks s)"

subsection \<open>The phases of an update\<close>

definition predict_track :: "ProcessorConfig \<Rightarrow> TrackingState \<Rightarrow> TrackingState" where
  "predict_track cfg track =
     track\<lparr> state := mat_vec F_mat (state track),
            covariance := mat_add (mat_mul (mat_mul F_mat (covariance track)) (transpose F_mat))
                                  (Q_mat cfg),
            prediction_count := prediction_count track + 1,
            age := age track + 1 \<rparr>"

definition predict_tracks :: "ProcessorConfig \<Rightarrow> KalmanBallTracker \<Rightarrow> KalmanBallTracker" where
  "predict_tracks cfg s = s\<lparr> tracks := map (\<lambda>(k, track). (k, predict_track cfg track)) (tracks s) \<rparr>"

definition innovation_covariance :: "ProcessorConfig \<Rightarrow> TrackingState \<Rightarrow> matrix" where
  "innovation_covariance cfg track =
     mat_add (mat_mul (mat_mul H_mat (covariance track)) (transpose H_mat)) (R_mat cfg)"

definition innovation :: "TrackingState \<Rightarrow> real \<times> real \<Rightarrow> vec" where
  "innovation track det = vec_sub [fst det, snd det] (mat_vec H_mat (state track))"

definition mahalanobis_distance :: "ProcessorConfig \<Rightarrow> TrackingState \<Rightarrow> real \<times> real \<Rightarrow> error + real" where
  "mahalanobis_distance cfg track det =
     (let y = innovation track det;
          S = innovation_covariance cfg track
      in case linalg_inv S of
           Some S_inv \<Rightarrow> math_sqrt (dot (vec_mat y S_inv) y)
         | None \<Rightarrow> math_sqrt (dot y y))"

text \<open>
  The inner loop of \<open>_associate_detections\<close> over \<open>enumerate(detections)\<close> for one track;
  \<open>distances\<close> is the dictionary keyed by \<open>(track_id, det_idx)\<close>.
\<close>

fun gate_detections ::
  "ProcessorConfig \<Rightarrow> int \<Rightarrow> TrackingState \<Rightarrow> nat set \<Rightarrow> (nat \<times> detection) list \<Rightarrow>
   ((int \<times> nat) \<times> real) list \<Rightarrow> error + ((int \<times> nat) \<times> real) list" where
  "gate_detections cfg tid track used [] distances = Inr distances"
| "gate_detections cfg tid track used ((det_idx, (det_x, det_y, conf)) # rest) distances =
     (if det_idx \<in> used then gate_detections cfg tid track used rest distances
      else
        case mahalanobis_distance cfg track (det_x, det_y) of
          Inl e \<Rightarrow> Inl e
        | Inr distance \<Rightarrow>
            gate_detections cfg tid track used rest
              (if distance < association_gate_threshold cfg
               then AList.update (tid, det_idx) distance distances
               else distances))"

text \<open>The outer loop over \<open>self.tracks.items()\<close>.\<close>

fun all_distances ::
  "ProcessorConfig \<Rightarrow> nat set \<Rightarrow> detection list \<Rightarrow> (int \<times> TrackingState) list \<Rightarrow>
   ((int \<times> nat) \<times> real) list \<Rightarrow> error + ((int \<times> nat) \<times> real) list" where
  "all_distances cfg used detections [] distances = Inr distances"
| "all_distances cfg used detections ((tid, track) # rest) distances =
     (case gate_detections cfg tid track used (enumerate 0 detections) distances of
        Inl e \<Rightarrow> Inl e
      | Inr distances' \<Rightarrow> all_distances cfg used detections rest distances')"

text \<open>
  The greedy loop over the pairs sorted by distance; \<open>associations\<close> is the dictionary
  from track id to detection index.
\<close>

fun greedy_match ::
  "((int \<times> nat) \<times> real) list \<Rightarrow> (int \<times> nat) list \<Rightarrow> nat set \<Rightarrow> (int \<times> nat) list" where
  "greedy_match [] associations used = associations"
| "greedy_match (((tid, det_idx), distance) # rest) associations used =
     (if map_of associations tid = None \<and> det_idx \<notin> used
      then greedy_match rest (AList.update tid det_idx associations) (insert det_idx used)
      else greedy_match rest associations used)"

definition associate_detections :: "ProcessorConfig \<Rightarrow> KalmanBallTracker \<Rightarrow> detection list \<Rightarrow> error + (int \<times> nat) list" where
  "associate_detections cfg s detections =
     (case all_distances cfg {} detections (tracks s) [] of
        Inl e \<Rightarrow> Inl e
      | Inr distances \<Rightarrow> Inr (greedy_match (sort_key snd distances) [] {}))"

text \<open>The Kalman correction of one track by one measurement, as \<open>_update_tracks\<close> computes it.\<close>

definition kalman_correction :: "ProcessorConfig \<Rightarrow> TrackingState \<Rightarrow> real \<times> real \<Rightarrow> TrackingState" where
  "kalman_correction cfg track det =
     (let y = innovation track det;
          S = innovation_covariance cfg track;
          K = mat_mul (mat_mul (covariance track) (transpose H_mat)) (linalg_pinv S)
      in track\<lparr> state := vec_add (state track) (mat_vec K y),
                covariance := mat_mul (mat_sub eye4 (mat_mul K H_mat)) (covariance track) \<rparr>)"

text \<open>
  \<open>_update_tracks\<close>: the measurement is read from \<open>self._current_detections\<close>, the list
  stored by the previous \<open>_create_new_tracks\<close>. A track id missing from the dictionary is
  a \<open>KeyError\<close>, an index beyond the stored list an \<open>IndexError\<close>.
\<close>

fun update_tracks ::
  "ProcessorConfig \<Rightarrow> KalmanBallTracker \<Rightarrow> (int \<times> nat) list \<Rightarrow> error + KalmanBallTracker" where
  "update_tracks cfg s [] = Inr s"
| "update_tracks cfg s ((tid, det_idx) # rest) =
     (case map_of (tracks s) tid of
        None \<Rightarrow> Inl KeyError
      | Some track \<Rightarrow>
          (case current_detections s of
             None \<Rightarrow> update_tracks cfg s rest
           | Some stored \<Rightarrow>
               if det_idx < length stored then
                 (case stored ! det_idx of (det_x, det_y, conf) \<Rightarrow>
                    update_tracks cfg
                      (s\<lparr> tracks := AList.update tid
                            ((kalman_correction cfg track (det_x, det_y))
                               \<lparr> prediction_count := 0,
                                 last_detection_frame := frame_count s \<rparr>)
                            (tracks s) \<rparr>) rest)
               else Inl IndexError))"

definition new_track :: "KalmanBallTracker \<Rightarrow> detection \<Rightarrow> TrackingState" where
  "new_track s det =
     (case det of (det_x, det_y, conf) \<Rightarrow>
        \<lparr> state = [det_x, det_y, 0, 0],
          covariance = [[100, 0, 0, 0], [0, 100, 0, 0], [0, 0, 100, 0], [0, 0, 0, 100]],
          confidence = conf,
          last_detection_frame = frame_count s,
          prediction_count = 0,
          track_id = next_track_id s,
          age = 0 \<rparr>)"

text \<open>Whether the loop of \<open>_create_new_tracks\<close> creates a track for a detection.\<close>

definition spawns :: "ProcessorConfig \<Rightarrow> nat set \<Rightarrow> nat \<times> detection \<Rightarrow> bool" where
  "spawns cfg associated_detections d \<longleftrightarrow>
     fst d \<notin> associated_detections \<and> snd (snd (snd d)) \<ge> min_tracking_confidence cfg"

text \<open>The body of that loop: the new track is stored under the next free id.\<close>

definition spawn_track :: "KalmanBallTracker \<Rightarrow> detection \<Rightarrow> KalmanBallTracker" where
  "spawn_track s det =
     s\<lparr> tracks := AList.update (next_track_id s) (new_track s det) (tracks s),
        next_track_id := next_track_id s + 1 \<rparr>"

fun spawn_loop ::
  "ProcessorConfig \<Rightarrow> nat set \<Rightarrow> KalmanBallTracker \<Rightarrow> (nat \<times> detection) list \<Rightarrow> KalmanBallTracker" where
  "spawn_loop cfg associated_detections s [] = s"
| "spawn_loop cfg associated_detections s (d # rest) =
     (if spawns cfg associated_detections d
      then spawn_loop cfg associated_detections (spawn_track s (snd d)) rest
      else spawn_loop cfg associated_detections s rest)"

definition create_new_tracks ::
  "ProcessorConfig \<Rightarrow> KalmanBallTracker \<Rightarrow> (int \<times> nat) list \<Rightarrow> detection list \<Rightarrow> KalmanBallTracker" where
  "create_new_tracks cfg s associations detections =
     spawn_loop cfg (set (map snd associations))
       (s\<lparr> current_detections := Some detections \<rparr>) (enumerate 0 detections)"

definition keeps_track :: "ProcessorConfig \<Rightarrow> KalmanBallTracker \<Rightarrow> TrackingState \<Rightarrow> bool" where
  "keeps_track cfg s track \<longleftrightarrow>
     \<not> (frame_count s - last_detection_frame track > max_missed_frames cfg)
     \<and> \<not> (confidence track < 1/10)"

definition cleanup_tracks :: "ProcessorConfig \<Rightarrow> KalmanBallTracker \<Rightarrow> KalmanBallTracker" where
  "cleanup_tracks cfg s = s\<lparr> tracks := filter (\<lambda>(k, track). keeps_track cfg s track) (tracks s) \<rparr>"

definition update_track_confidence :: "ProcessorConfig \<Rightarrow> TrackingState \<Rightarrow> TrackingState" where
  "update_track_confidence cfg track =
     (let c1 = confidence track * confidence_decay_rate cfg;
          c2 = (if prediction_count track = 0
                then min 1 (c1 + confidence_boost_on_detection cfg) else c1)
      in track\<lparr> confidence := max 0 (min 1 c2) \<rparr>)"

definition update_confidence :: "ProcessorConfig \<Rightarrow> KalmanBallTracker \<Rightarrow> KalmanBallTracker" where
  "update_confidence cfg s =
     s\<lparr> tracks := map (\<lambda>(k, track). (k, update_track_confidence cfg track)) (tracks s) \<rparr>"

text \<open>The first two statements of \<open>update\<close>: the frame counter is incremented and every
  track is predicted.\<close>

definition predicted :: "ProcessorConfig \<Rightarrow> KalmanBallTracker \<Rightarrow> KalmanBallTracker" where
  "predicted cfg s = predict_tracks cfg (s\<lparr> frame_count := frame_count s + 1 \<rparr>)"

text \<open>
  \<open>KalmanBallTracker.update\<close>; the frame time is not used by the code. The list returned
  is \<open>tracking_states\<close> of the resulting tracker.
\<close>

definition tracker_update :: "ProcessorConfig \<Rightarrow> KalmanBallTracker \<Rightarrow> detection list \<Rightarrow> error + KalmanBallTracker" where
  "tracker_update cfg s detections =
     (let s1 = predicted cfg s
      in case associate_detections cfg s1 detections of
           Inl e \<Rightarrow> Inl e
         | Inr associations \<Rightarrow>
             (case update_tracks cfg s1 associations of
                Inl e \<Rightarrow> Inl e
              | Inr s2 \<Rightarrow>
                  Inr (update_confidence cfg
                         (cleanup_tracks cfg
                            (create_new_tracks cfg s2 associations detections)))))"

text \<open>A sequence of \<open>update\<close> calls; the first exception ends it.\<close>

fun tracker_run :: "ProcessorConfig \<Rightarrow> KalmanBallTracker \<Rightarrow> detection list list \<Rightarrow> error + KalmanBallTracker" where
  "tracker_run cfg s [] = Inr s"
| "tracker_run cfg s (d # ds) =
     (case tracker_update cfg s d of Inl e \<Rightarrow> Inl e | Inr s' \<Rightarrow> tracker_run cfg s' ds)"

subsection \<open>Observing a run of the tracker\<close>

text \<open>
  The ids that the loop of \<open>_create_new_tracks\<close> hands out, in the order in which the
  tracks are created: the value of \<open>next_track_id\<close> at each creation.
\<close>

fun spawned_ids ::
  "ProcessorConfig \<Rightarrow> nat set \<Rightarrow> KalmanBallTracker \<Rightarrow> (nat \<times> detection) list \<Rightarrow> int list" where
  "spawned_ids cfg associated_detections s [] = []"
| "spawned_ids cfg associated_detections s (d # rest) =
     (if spawns cfg associated_detections d
      then next_track_id s # spawned_ids cfg associated_detections (spawn_track s (snd d)) rest
      else spawned_ids cfg associated_detections s rest)"

text \<open>The ids of the tracks created by one \<open>update\<close> call (none if the call raises before).\<close>

definition created_in_update :: "ProcessorConfig \<Rightarrow> KalmanBallTracker \<Rightarrow> detection list \<Rightarrow> int list" where
  "created_in_update cfg s detections =
     (let s1 = predicted cfg s
      in case associate_detections cfg s1 detections of
           Inl e \<Rightarrow> []
         | Inr associations \<Rightarrow>
             (case update_tracks cfg s1 associations of
                Inl e \<Rightarrow> []
              | Inr s2 \<Rightarrow>
                  spawned_ids cfg (set (map snd associations))
                    (s2\<lparr> current_detections := Some detections \<rparr>) (enumerate 0 detections)))"

text \<open>The ids of all tracks created during a sequence of \<open>update\<close> calls, in order.\<close>

fun created_in_run :: "ProcessorConfig \<Rightarrow> KalmanBallTracker \<Rightarrow> detection list list \<Rightarrow> int list" where
  "created_in_run cfg s [] = []"
| "created_in_run cfg s (d # ds) =
     created_in_update cfg s d @
       (case tracker_update cfg s d of Inl e \<Rightarrow> [] | Inr s' \<Rightarrow> created_in_run cfg s' ds)"

text \<open>
  The track with id \<open>tid\<close> receives no detection in an \<open>update\<close> call: the association
  computed in that call has no entry for it.
\<close>

definition unmatched :: "ProcessorConfig \<Rightarrow> KalmanBallTracker \<Rightarrow> detection list \<Rightarrow> int \<Rightarrow> bool" where
  "unmatched cfg s detections tid \<longleftrightarrow>
     (case associate_detections cfg (predicted cfg s) detections of
        Inl e \<Rightarrow> False
      | Inr associations \<Rightarrow> map_of associations tid = None)"

text \<open>The track receives no detection in any call of a sequence of \<open>update\<close> calls.\<close>

fun missed_streak :: "ProcessorConfig \<Rightarrow> int \<Rightarrow> KalmanBallTracker \<Rightarrow> detection list list \<Rightarrow> bool" where
  "missed_streak cfg tid s [] = True"
| "missed_streak cfg tid s (d # ds) =
     (unmatched cfg s d tid \<and>
      (case tracker_update cfg s d of Inl e \<Rightarrow> False | Inr s' \<Rightarrow> missed_streak cfg tid s' ds))"

text \<open>
  What holds of the dictionary in every tracker reached from a new one: keys are not
  repeated, every track is stored under its own id, ids are below \<open>next_track_id\<close>, and
  no track was last detected in a future frame.
\<close>

definition tracker_inv :: "KalmanBallTracker \<Rightarrow> bool" where
  "tracker_inv s \<longleftrightarrow>
     distinct (map fst (tracks s)) \<and>
     (\<forall>(k, track) \<in> set (tracks s).
        track_id track = k \<and> k < next_track_id s \<and> last_detection_frame track \<le> frame_count s)"


section \<open>Concrete inputs\<close>

text \<open>
  The observations of the module's self-test: active from 2 to 8 and from 15 to 20.5.
\<close>

definition demo_builder :: SegmentBuilder where
  "demo_builder =
     observe default_config
       (observe default_config
         (observe default_config
           (observe default_config new_segment_builder True 2) False 8) True 15) False (41/2)"

text \<open>A configuration with a negative merge gap, and two overlapping padded ranges.\<close>

definition negative_gap_config :: ProcessorConfig where
  "negative_gap_config = default_config\<lparr> max_segment_gap := -1 \<rparr>"

definition overlapping_builder :: SegmentBuilder where
  "overlapping_builder = append_padded (append_padded new_segment_builder 0 5) 3 8"

text \<open>A rally context without physics validation.\<close>

definition rally_context :: "real \<Rightarrow> real \<Rightarrow> real \<Rightarrow> real \<Rightarrow> real \<Rightarrow> RallyContext" where
  "rally_context t det trk vel gap = \<lparr> current_time = t, detection_confidence = det,
     tracking_confidence = trk, physics_validation = None, velocity_magnitude = vel,
     time_since_last_detection = gap, consecutive_detections = 0 \<rparr>"

text \<open>A configuration whose cooldown period is longer than its maximum gap.\<close>

definition long_cooldown_config :: ProcessorConfig where
  "long_cooldown_config = default_config\<lparr> rally_cooldown_period := 3 \<rparr>"

text \<open>
  Two videos for one decider. The first ends with a counted contact at time 101; the
  second starts again at time 0, has a rally from 1 to 3 and a velocity change at 3.
\<close>

definition first_video :: "RallyContext list" where
  "first_video = [rally_context 100 0 0 50 0, rally_context 101 0 0 20 0]"

definition second_video :: "RallyContext list" where
  "second_video = [rally_context 0 1 1 20 0, rally_context 1 1 1 20 0, rally_context 3 0 0 50 2]"

text \<open>
  Trackers with the default configuration. \<open>one_track\<close> is a new tracker after one
  \<open>update\<close> with the detection \<open>(100, 200, 0.8)\<close>; \<open>one_track_predicted\<close> is its
  state after the prediction step of the next call, and \<open>one_track_stale\<close> its state
  after a second \<open>update\<close> with the detection \<open>(110, 200, 0.9)\<close>.
\<close>

definition first_track :: TrackingState where
  "first_track = \<lparr> state = [100, 200, 0, 0],
     covariance = [[100, 0, 0, 0], [0, 100, 0, 0], [0, 0, 100, 0], [0, 0, 0, 100]],
     confidence = 43/50, last_detection_frame = 1, prediction_count = 0,
     track_id = 0, age = 0 \<rparr>"

definition one_track :: KalmanBallTracker where
  "one_track = \<lparr> tracks = [(0, first_track)], next_track_id = 1, frame_count = 1,
     current_detections = Some [(100, 200, 4/5)] \<rparr>"

definition first_track_predicted :: TrackingState where
  "first_track_predicted = \<lparr> state = [100, 200, 0, 0],
     covariance = [[201, 0, 100, 0], [0, 201, 0, 100], [100, 0, 201/2, 0], [0, 100, 0, 201/2]],
     confidence = 43/50, last_detection_frame = 1, prediction_count = 1,
     track_id = 0, age = 1 \<rparr>"

definition one_track_predicted :: KalmanBallTracker where
  "one_track_predicted = \<lparr> tracks = [(0, first_track_predicted)], next_track_id = 1,
     frame_count = 2, current_detections = Some [(100, 200, 4/5)] \<rparr>"

definition one_track_stale :: KalmanBallTracker where
  "one_track_stale = \<lparr> tracks = [(0, \<lparr> state = [100, 200, 0, 0],
        covariance = [[2010/211, 0, 1000/211, 0], [0, 2010/211, 0, 1000/211],
                      [1000/211, 0, 22411/422, 0], [0, 1000/211, 0, 22411/422]],
        confidence = 917/1000, last_detection_frame = 2, prediction_count = 0,
        track_id = 0, age = 1 \<rparr>)],
     next_track_id = 1, frame_count = 2, current_detections = Some [(110, 200, 9/10)] \<rparr>"

text \<open>A new tracker after one \<open>update\<close> with a detection of confidence 5.\<close>

definition clamped_track :: KalmanBallTracker where
  "clamped_track = \<lparr> tracks = [(0, \<lparr> state = [100, 200, 0, 0],
        covariance = [[100, 0, 0, 0], [0, 100, 0, 0], [0, 0, 100, 0], [0, 0, 0, 100]],
        confidence = 1, last_detection_frame = 1, prediction_count = 0,
        track_id = 0, age = 0 \<rparr>)],
     next_track_id = 1, frame_count = 1, current_detections = Some [(100, 200, 5)] \<rparr>"

text \<open>
  With \<open>max_missed_frames = 1\<close>: the tracker \<open>one_track\<close> after one \<open>update\<close> without
  detections, and the empty trackers that follow.
\<close>

definition short_memory_config :: ProcessorConfig where
  "short_memory_config = default_config\<lparr> max_missed_frames := 1 \<rparr>"

definition one_track_missed :: KalmanBallTracker where
  "one_track_missed = \<lparr> tracks = [(0, \<lparr> state = [100, 200, 0, 0],
        covariance = [[201, 0, 100, 0], [0, 201, 0, 100], [100, 0, 201/2, 0], [0, 100, 0, 201/2]],
        confidence = 817/1000, last_detection_frame = 1, prediction_count = 1,
        track_id = 0, age = 1 \<rparr>)],
     next_track_id = 1, frame_count = 2, current_detections = Some [] \<rparr>"

definition no_track :: "int \<Rightarrow> KalmanBallTracker" where
  "no_track n = \<lparr> tracks = [], next_track_id = 1, frame_count = n, current_detections = Some [] \<rparr>"

text \<open>
  A new tracker after one \<open>update\<close> with two detections, after the prediction step of
  the next call, and after a second \<open>update\<close> with one detection far from both tracks.
\<close>

definition two_tracks :: KalmanBallTracker where
  "two_tracks = \<lparr> tracks = [(0, first_track), (1, first_track\<lparr> state := [300, 300, 0, 0], track_id := 1 \<rparr>)],
     next_track_id = 2, frame_count = 1,
     current_detections = Some [(100, 200, 4/5), (300, 300, 4/5)] \<rparr>"

definition two_tracks_predicted :: KalmanBallTracker where
  "two_tracks_predicted = \<lparr> tracks = [(0, first_track_predicted),
        (1, first_track_predicted\<lparr> state := [300, 300, 0, 0], track_id := 1 \<rparr>)],
     next_track_id = 2, frame_count = 2,
     current_detections = Some [(100, 200, 4/5), (300, 300, 4/5)] \<rparr>"

definition three_tracks :: KalmanBallTracker where
  "three_tracks = \<lparr> tracks =
       [(0, first_track_predicted\<lparr> confidence := 817/1000 \<rparr>),
        (1, first_track_predicted\<lparr> state := [300, 300, 0, 0], track_id := 1, confidence := 817/1000 \<rparr>),
        (2, first_track\<lparr> state := [5000, 5000, 0, 0], track_id := 2, last_detection_frame := 2 \<rparr>)],
     next_track_id = 3, frame_count = 2, current_detections = Some [(5000, 5000, 4/5)] \<rparr>"

text \<open>
  The trajectory of the self-test of ballistics\_gate.py: twenty points at intervals of
  0.1 s on a parabolic arc.
\<close>

definition self_test_points :: "TrajectoryPoint list" where
  "self_test_points =
     map (\<lambda>i. let t = real i * (1/10)
              in \<lparr> pt_x = 100 + 50 * t, pt_y = 200 + 30 * t - 5 * (t * t), pt_time = t,
                    pt_confidence = 8/10 + (1/10) * sin (real i) \<rparr>) [0..<20]"


section \<open>Properties of the segment builder\<close>

lemma clamp_ranges_bounds:
  "r \<in> set (clamp_ranges vd rs) \<Longrightarrow> 0 \<le> tr_start r \<and> tr_start r < tr_end r \<and> tr_end r \<le> vd"
  by (induction rs) (auto simp: Let_def split: if_splits)

lemma chain_snoc:
  "chain vd (ms @ [r]) \<longleftrightarrow>
     chain vd ms \<and> (\<forall>a \<in> set ms. tr_end a < tr_start r) \<and>
     0 \<le> tr_start r \<and> tr_start r < tr_end r \<and> tr_end r \<le> vd"
  by (auto simp: chain_def sorted_wrt_append)

lemma chain_last_bound:
  assumes "chain vd ms" and "a \<in> set ms"
  shows "tr_end a \<le> tr_end (last ms)"
proof (cases ms rule: rev_cases)
  case Nil
  with assms show ?thesis by simp
next
  case (snoc ys y)
  with assms have "chain vd (ys @ [y])" and "a \<in> set ys \<or> a = y" by auto
  then show ?thesis using snoc
    by (auto simp: chain_snoc)
qed

lemma merge_loop_chain:
  assumes "0 \<le> max_segment_gap cfg"
    and "chain vd merged"
    and "\<forall>r \<in> set rs. 0 \<le> tr_start r \<and> tr_start r < tr_end r \<and> tr_end r \<le> vd"
  shows "chain vd (merge_loop cfg merged rs)"
  using assms(2,3)
proof (induction rs arbitrary: merged)
  case Nil
  then show ?case by simp
next
  case (Cons r rs)
  have r_ok: "0 \<le> tr_start r" "tr_start r < tr_end r" "tr_end r \<le> vd"
    using Cons.prems(2) by auto
  have rest: "\<forall>r \<in> set rs. 0 \<le> tr_start r \<and> tr_start r < tr_end r \<and> tr_end r \<le> vd"
    using Cons.prems(2) by auto
  show ?case
  proof (cases "merged \<noteq> [] \<and> gap_between (last merged) r \<le> max_segment_gap cfg")
    case True
    then obtain ys y where m: "merged = ys @ [y]"
      by (cases merged rule: rev_cases) auto
    from Cons.prems(1) m have "chain vd (ys @ [y])" by simp
    then have "chain vd (ys @ [\<lparr> tr_start = tr_start y, tr_end = max (tr_end y) (tr_end r) \<rparr>])"
      using r_ok by (auto simp: chain_snoc)
    then have "chain vd (merge_loop cfg
         (butlast merged @ [\<lparr> tr_start = tr_start (last merged),
                              tr_end = max (tr_end (last merged)) (tr_end r) \<rparr>]) rs)"
      using Cons.IH rest m by simp
    with True show ?thesis by simp
  next
    case False
    have "\<forall>a \<in> set merged. tr_end a < tr_start r"
    proof
      fix a assume a: "a \<in> set merged"
      then have ne: "merged \<noteq> []" by auto
      with False have "max_segment_gap cfg < gap_between (last merged) r" by auto
      with assms(1) have "tr_end (last merged) < tr_start r"
        by (auto simp: gap_between_def max_def split: if_splits)
      moreover have "tr_end a \<le> tr_end (last merged)"
        using chain_last_bound [OF Cons.prems(1) a] .
      ultimately show "tr_end a < tr_start r" by simp
    qed
    then have "chain vd (merged @ [r])"
      using Cons.prems(1) r_ok by (simp add: chain_snoc)
    then have "chain vd (merge_loop cfg (merged @ [r]) rs)"
      using Cons.IH rest by simp
    with False show ?thesis by auto
  qed
qed

lemma chain_filter: "chain vd rs \<Longrightarrow> chain vd (filter P rs)"
  by (auto simp: chain_def sorted_wrt_filter)

lemma chain_sorted_starts: "chain vd rs \<Longrightarrow> sorted (map tr_start rs)"
proof (induction rs)
  case Nil
  then show ?case by simp
next
  case (Cons r rs)
  then have "chain vd rs" by (auto simp: chain_def)
  moreover have "\<forall>b \<in> set rs. tr_start r \<le> tr_start b"
    using Cons.prems by (fastforce simp: chain_def)
  ultimately show ?case using Cons.IH by simp
qed

lemma chain_non_overlapping: "chain vd rs \<Longrightarrow> sorted_wrt (\<lambda>a b. tr_end a \<le> tr_start b) rs"
  unfolding chain_def
  by (auto intro: sorted_wrt_mono_rel [where P = "\<lambda>a b. tr_end a < tr_start b"])

lemma finalize_chain:
  assumes "0 \<le> max_segment_gap cfg"
  shows "chain vd (snd (finalize cfg s vd))"
proof -
  let ?s1 = "case current_start s of
               Some cs \<Rightarrow> (close_segment cfg s cs vd)\<lparr> current_start := None \<rparr>
             | None \<Rightarrow> s"
  have "\<forall>r \<in> set (sort_key tr_start (clamp_ranges vd (ranges ?s1))).
          0 \<le> tr_start r \<and> tr_start r < tr_end r \<and> tr_end r \<le> vd"
    using clamp_ranges_bounds by auto
  moreover have "chain vd []" by (simp add: chain_def)
  ultimately have "chain vd (merge_loop cfg [] (sort_key tr_start (clamp_ranges vd (ranges ?s1))))"
    using merge_loop_chain [OF assms] by blast
  then show ?thesis
    by (simp add: finalize_def Let_def chain_filter)
qed

lemma demo_builder_eq:
  "demo_builder = \<lparr> current_start = None,
      ranges = [\<lparr> tr_start = 3/2, tr_end = 83/10 \<rparr>, \<lparr> tr_start = 29/2, tr_end = 104/5 \<rparr>] \<rparr>"
  by (simp add: demo_builder_def observe_def close_segment_def new_segment_builder_def
      default_config_def short_segment_threshold_def max_preroll_for_short_def Let_def)

lemma demo_finalize:
  "snd (finalize default_config demo_builder 35) =
     [\<lparr> tr_start = 3/2, tr_end = 83/10 \<rparr>, \<lparr> tr_start = 29/2, tr_end = 104/5 \<rparr>]"
  by (simp add: demo_builder_eq finalize_def Let_def default_config_def gap_between_def duration_def)

text \<open>
  Claim C5, as amended. The claim as stated fails when the configured merge gap is
  negative: \<open>gap_between\<close> is never negative, so overlapping ranges are then never
  merged. For every builder state (each is reached by some sequence of \<open>observe\<close> and
  \<open>append\<close> calls) and every video duration, if \<open>max_segment_gap\<close> is not negative
  then the list returned by \<open>finalize\<close> is sorted by start time, pairwise
  non-overlapping, inside \<open>[0, video_duration]\<close>, and every range lasts at least
  \<open>min_segment_duration\<close>.
\<close>

theorem finalize_well_formed:
  assumes "0 \<le> max_segment_gap cfg"
  shows "finalized_ok cfg video_duration (snd (finalize cfg s video_duration))"
proof -
  let ?out = "snd (finalize cfg s video_duration)"
  have c: "chain video_duration ?out" using finalize_chain [OF assms] .
  have "sorted (map tr_start ?out)" using c by (rule chain_sorted_starts)
  moreover have "sorted_wrt (\<lambda>a b. tr_end a \<le> tr_start b) ?out"
    using c by (rule chain_non_overlapping)
  moreover have "\<forall>r \<in> set ?out. 0 \<le> tr_start r \<and> tr_end r \<le> video_duration"
    using c by (auto simp: chain_def)
  moreover have "\<forall>r \<in> set ?out. min_segment_duration cfg \<le> duration r"
    by (simp add: finalize_def Let_def)
  ultimately show ?thesis
    by (simp add: finalized_ok_def list_all_iff)
qed

text \<open>
  The default configuration and the observations of the module's self-test: the two
  padded ranges are returned unmerged.
\<close>

theorem finalize_well_formed_witness:
  "0 \<le> max_segment_gap default_config \<and>
   snd (finalize default_config demo_builder 35) =
     [\<lparr> tr_start = 3/2, tr_end = 83/10 \<rparr>, \<lparr> tr_start = 29/2, tr_end = 104/5 \<rparr>] \<and>
   finalized_ok default_config 35 (snd (finalize default_config demo_builder 35))"
proof -
  have h: "0 \<le> max_segment_gap default_config" by (simp add: default_config_def)
  show ?thesis
    using h finalize_well_formed [OF h, of 35 demo_builder] demo_finalize by simp
qed

text \<open>
  Claim C5 as stated is false: with \<open>max_segment_gap = -1\<close> the padded ranges
  \<open>[0, 5]\<close> and \<open>[3, 8]\<close> are both returned, and they overlap.
\<close>

theorem finalize_overlap_counterexample:
  "snd (finalize negative_gap_config overlapping_builder 10) =
     [\<lparr> tr_start = 0, tr_end = 5 \<rparr>, \<lparr> tr_start = 3, tr_end = 8 \<rparr>] \<and>
   \<not> finalized_ok negative_gap_config 10 (snd (finalize negative_gap_config overlapping_builder 10))"
  by (simp add: finalize_def Let_def negative_gap_config_def overlapping_builder_def
      append_padded_def new_segment_builder_def default_config_def gap_between_def duration_def
      finalized_ok_def)

text \<open>\<open>reset\<close> of the segment builder gives the state of a new builder.\<close>

lemma segment_reset_is_new: "segment_reset s = new_segment_builder"
  by (simp add: segment_reset_def new_segment_builder_def)

text \<open>
  Claim C6: \<open>finalize\<close> is idempotent. For every builder state and every video duration,
  a second \<open>finalize\<close> with the same duration, right after the first, returns the same
  list of ranges (and leaves the builder as the first call left it).
\<close>

theorem finalize_idempotent:
  "snd (finalize cfg (fst (finalize cfg s video_duration)) video_duration)
     = snd (finalize cfg s video_duration) \<and>
   fst (finalize cfg (fst (finalize cfg s video_duration)) video_duration)
     = fst (finalize cfg s video_duration)"
  by (cases "current_start s") (simp_all add: finalize_def Let_def)

section \<open>Properties of the rally decider\<close>

lemma step_current_state:
  "current_state (state_machine_step cfg s rc c) = determine_new_state cfg s rc c"
  by (simp add: state_machine_step_def Let_def update_rally_tracking_def transition_to_state_def)

lemma step_state_start_time:
  "state_start_time (state_machine_step cfg s rc c) =
     (if determine_new_state cfg s rc c \<noteq> current_state s then current_time c
      else state_start_time s)"
  by (simp add: state_machine_step_def Let_def update_rally_tracking_def transition_to_state_def)

text \<open>
  Claim C4, as amended. The state machine leaves \<open>ENDING\<close> for \<open>IDLE\<close> when the time
  spent in \<open>ENDING\<close> exceeds \<open>rally_cooldown_period\<close>; \<open>max_gap_in_rally\<close> plays no
  part in that transition. With start threshold 0.7 and end threshold 0.3, starting in
  \<open>IDLE\<close>, if the detection gap is within the maximum gap at the 0.25 sample and exceeds
  it at the 0.1 sample, and the last sample comes more than the cooldown period after the
  0.1 sample, then the confidences 0, 0.5, 0.8, 0.9, 0.85, 0.25, 0.1, 0 give the states
  Idle, Potential, Active, Active, Active, Active, Ending, Idle.
\<close>

theorem hysteresis_sequence:
  assumes start: "rally_start_threshold cfg = 7/10"
    and stop: "rally_end_threshold cfg = 3/10"
    and idle: "current_state s = IDLE"
    and gap6: "time_since_last_detection c6 \<le> max_gap_in_rally cfg"
    and gap7: "time_since_last_detection c7 > max_gap_in_rally cfg"
    and hold: "current_time c8 - current_time c7 > rally_cooldown_period cfg"
  shows "feed_confidences cfg s
           [(0, c1), (1/2, c2), (8/10, c3), (9/10, c4), (85/100, c5), (1/4, c6), (1/10, c7), (0, c8)]
         = [IDLE, POTENTIAL, ACTIVE, ACTIVE, ACTIVE, ACTIVE, ENDING, IDLE]"
proof -
  define s1 where "s1 = state_machine_step cfg s 0 c1"
  define s2 where "s2 = state_machine_step cfg s1 (1/2) c2"
  define s3 where "s3 = state_machine_step cfg s2 (8/10) c3"
  define s4 where "s4 = state_machine_step cfg s3 (9/10) c4"
  define s5 where "s5 = state_machine_step cfg s4 (85/100) c5"
  define s6 where "s6 = state_machine_step cfg s5 (1/4) c6"
  define s7 where "s7 = state_machine_step cfg s6 (1/10) c7"
  define s8 where "s8 = state_machine_step cfg s7 0 c8"
  have st1: "current_state s1 = IDLE"
    using idle stop by (simp add: s1_def step_current_state determine_new_state_def)
  have st2: "current_state s2 = POTENTIAL"
    using st1 stop by (simp add: s2_def step_current_state determine_new_state_def)
  have st3: "current_state s3 = ACTIVE"
    using st2 start by (simp add: s3_def step_current_state determine_new_state_def)
  have st4: "current_state s4 = ACTIVE"
    using st3 stop by (simp add: s4_def step_current_state determine_new_state_def)
  have st5: "current_state s5 = ACTIVE"
    using st4 stop by (simp add: s5_def step_current_state determine_new_state_def)
  have st6: "current_state s6 = ACTIVE"
    using st5 stop gap6 by (simp add: s6_def step_current_state determine_new_state_def)
  have st7: "current_state s7 = ENDING"
    using st6 stop gap7 by (simp add: s7_def step_current_state determine_new_state_def)
  have t7: "state_start_time s7 = current_time c7"
    using st6 st7 by (simp add: s7_def step_state_start_time step_current_state [symmetric])
  have st8: "current_state s8 = IDLE"
    using st7 t7 start hold by (simp add: s8_def step_current_state determine_new_state_def)
  show ?thesis
    using st1 st2 st3 st4 st5 st6 st7 st8
    by (simp add: Let_def s1_def s2_def s3_def s4_def s5_def s6_def s7_def s8_def)
qed

text \<open>
  The default configuration (maximum gap 1, cooldown 0.5), with samples at the times
  0, 1, 2, 3, 4, 5, 6 and 7.5.
\<close>

theorem hysteresis_sequence_witness:
  "rally_start_threshold default_config = 7/10 \<and>
   rally_end_threshold default_config = 3/10 \<and>
   current_state new_rally_decider = IDLE \<and>
   time_since_last_detection (rally_context 5 0 0 0 (1/2)) \<le> max_gap_in_rally default_config \<and>
   time_since_last_detection (rally_context 6 0 0 0 (3/2)) > max_gap_in_rally default_config \<and>
   current_time (rally_context (15/2) 0 0 0 3) - current_time (rally_context 6 0 0 0 (3/2))
     > rally_cooldown_period default_config \<and>
   feed_confidences default_config new_rally_decider
     [(0, rally_context 0 0 0 0 0), (1/2, rally_context 1 0 0 0 0),
      (8/10, rally_context 2 0 0 0 0), (9/10, rally_context 3 0 0 0 0),
      (85/100, rally_context 4 0 0 0 0), (1/4, rally_context 5 0 0 0 (1/2)),
      (1/10, rally_context 6 0 0 0 (3/2)), (0, rally_context (15/2) 0 0 0 3)]
   = [IDLE, POTENTIAL, ACTIVE, ACTIVE, ACTIVE, ACTIVE, ENDING, IDLE]"
proof -
  have h: "rally_start_threshold default_config = 7/10"
     "rally_end_threshold default_config = 3/10"
     "current_state new_rally_decider = IDLE"
     "time_since_last_detection (rally_context 5 0 0 0 (1/2)) \<le> max_gap_in_rally default_config"
     "time_since_last_detection (rally_context 6 0 0 0 (3/2)) > max_gap_in_rally default_config"
     "current_time (rally_context (15/2) 0 0 0 3) - current_time (rally_context 6 0 0 0 (3/2))
        > rally_cooldown_period default_config"
    by (simp_all add: default_config_def new_rally_decider_def rally_context_def)
  show ?thesis
    using h hysteresis_sequence [OF h, of "rally_context 0 0 0 0 0" "rally_context 1 0 0 0 0"
        "rally_context 2 0 0 0 0" "rally_context 3 0 0 0 0" "rally_context 4 0 0 0 0"]
    by simp
qed

text \<open>
  Claim C4 as stated is false. The configuration has the thresholds 0.7 and 0.3, a
  maximum gap of 1 and a cooldown period of 3. The detection gap exceeds the maximum gap
  from the 0.1 sample onward (1.5 and 3), and the final value is held for 1.5, past the
  maximum gap: the machine is still in \<open>ENDING\<close> after the last sample.
\<close>

theorem hysteresis_counterexample:
  "rally_start_threshold long_cooldown_config = 7/10 \<and>
   rally_end_threshold long_cooldown_config = 3/10 \<and>
   max_gap_in_rally long_cooldown_config = 1 \<and>
   feed_confidences long_cooldown_config new_rally_decider
     [(0, rally_context 0 0 0 0 0), (1/2, rally_context 1 0 0 0 0),
      (8/10, rally_context 2 0 0 0 0), (9/10, rally_context 3 0 0 0 0),
      (85/100, rally_context 4 0 0 0 0), (1/4, rally_context 5 0 0 0 (1/2)),
      (1/10, rally_context 6 0 0 0 (3/2)), (0, rally_context (15/2) 0 0 0 3)]
   = [IDLE, POTENTIAL, ACTIVE, ACTIVE, ACTIVE, ACTIVE, ENDING, ENDING]"
  by (simp add: long_cooldown_config_def default_config_def new_rally_decider_def
      rally_context_def Let_def step_current_state step_state_start_time
      determine_new_state_def)

text \<open>
  Claim C3 fails on the code: \<open>reset\<close> of the rally decider leaves
  \<open>last_velocity_magnitude\<close>, \<open>velocity_history\<close> and \<open>last_contact_time\<close> (among others)
  as they were. After the first video and a reset the decider is not the fresh one, and
  on the second video it records the rally with no contact and quality 0.38, where a
  fresh decider records one contact and quality 0.41: the contact at time 3 is not more
  than \<open>min_contact_separation\<close> after the stale contact time 101.
\<close>

theorem rally_reset_not_fresh:
  "rally_reset (rally_run default_config new_rally_decider first_video) =
     new_rally_decider\<lparr> last_velocity_magnitude := 20,
        velocity_history := [(100, 50), (101, 20)],
        last_contact_time := Some 101 \<rparr> \<and>
   completed_rallies (rally_run default_config new_rally_decider second_video) =
     [\<lparr> start_time = 1, end_time = 3, rally_duration = 2, max_confidence = 8/10,
        avg_confidence = 8/10, rally_contacts = 1, quality_score = 41/100 \<rparr>] \<and>
   completed_rallies (rally_run default_config
      (rally_reset (rally_run default_config new_rally_decider first_video)) second_video) =
     [\<lparr> start_time = 1, end_time = 3, rally_duration = 2, max_confidence = 8/10,
        avg_confidence = 8/10, rally_contacts = 0, quality_score = 38/100 \<rparr>]"
  by code_simp

section \<open>Properties of the tracker\<close>

lemma tracker_update_cases:
  assumes "tracker_update cfg s detections = Inr s'"
  obtains associations s2 where
    "associate_detections cfg (predicted cfg s) detections = Inr associations"
    "update_tracks cfg (predicted cfg s) associations = Inr s2"
    "s' = update_confidence cfg (cleanup_tracks cfg (create_new_tracks cfg s2 associations detections))"
  using assms by (auto simp: tracker_update_def Let_def split: sum.splits)

subsection \<open>Association lists\<close>

lemma set_update_cases:
  "(k', v') \<in> set (AList.update k v al) \<Longrightarrow> (k', v') \<in> set al \<or> (k' = k \<and> v' = v)"
  by (induction al) (auto split: if_splits)

lemma set_update_other:
  "k' \<noteq> k \<Longrightarrow> (k', v') \<in> set (AList.update k v al) \<longleftrightarrow> (k', v') \<in> set al"
  by (induction al) auto

lemma keys_update_present:
  "map_of al k = Some v0 \<Longrightarrow> map fst (AList.update k v al) = map fst al"
  by (induction al) (auto split: if_splits)

lemma keys_update_absent:
  "k \<notin> fst ` set al \<Longrightarrow> map fst (AList.update k v al) = map fst al @ [k]"
  by (induction al) auto

subsection \<open>The phases, one by one\<close>

lemma tracker_invD:
  "tracker_inv s \<Longrightarrow> (k, t) \<in> set (tracks s) \<Longrightarrow>
     track_id t = k \<and> k < next_track_id s \<and> last_detection_frame t \<le> frame_count s"
  by (auto simp: tracker_inv_def)

lemma tracker_invI:
  assumes "distinct (map fst (tracks s))"
    and "\<And>k t. (k, t) \<in> set (tracks s) \<Longrightarrow>
           track_id t = k \<and> k < next_track_id s \<and> last_detection_frame t \<le> frame_count s"
  shows "tracker_inv s"
  using assms by (auto simp: tracker_inv_def)

lemma predicted_fields [simp]:
  "next_track_id (predicted cfg s) = next_track_id s"
  "frame_count (predicted cfg s) = frame_count s + 1"
  "current_detections (predicted cfg s) = current_detections s"
  "map fst (tracks (predicted cfg s)) = map fst (tracks s)"
  by (auto simp: predicted_def predict_tracks_def)

lemma predicted_entry:
  "(k, t1) \<in> set (tracks (predicted cfg s)) \<longleftrightarrow>
     (\<exists>t. (k, t) \<in> set (tracks s) \<and> t1 = predict_track cfg t)"
  by (auto simp: predicted_def predict_tracks_def)

lemma predict_track_fields [simp]:
  "track_id (predict_track cfg t) = track_id t"
  "last_detection_frame (predict_track cfg t) = last_detection_frame t"
  by (simp_all add: predict_track_def)

lemma kalman_correction_fields [simp]:
  "track_id (kalman_correction cfg t det) = track_id t"
  "last_detection_frame (kalman_correction cfg t det) = last_detection_frame t"
  "prediction_count (kalman_correction cfg t det) = prediction_count t"
  "confidence (kalman_correction cfg t det) = confidence t"
  by (simp_all add: kalman_correction_def Let_def)

lemma update_tracks_fields:
  "update_tracks cfg s associations = Inr s2 \<Longrightarrow>
     next_track_id s2 = next_track_id s \<and> frame_count s2 = frame_count s \<and>
     current_detections s2 = current_detections s \<and>
     map fst (tracks s2) = map fst (tracks s)"
proof (induction cfg s associations rule: update_tracks.induct)
  case (1 cfg s)
  then show ?case by simp
next
  case (2 cfg s tid det_idx rest)
  then show ?case
    by (auto split: option.splits if_splits prod.splits simp: keys_update_present)
qed

lemma update_tracks_other:
  "update_tracks cfg s associations = Inr s2 \<Longrightarrow> tid \<notin> fst ` set associations \<Longrightarrow>
     (tid, t) \<in> set (tracks s2) \<longleftrightarrow> (tid, t) \<in> set (tracks s)"
proof (induction cfg s associations rule: update_tracks.induct)
  case (1 cfg s)
  then show ?case by simp
next
  case (2 cfg s k det_idx rest)
  then show ?case
    by (auto split: option.splits if_splits prod.splits simp: set_update_other)
qed

lemma update_tracks_inv:
  "update_tracks cfg s associations = Inr s2 \<Longrightarrow> tracker_inv s \<Longrightarrow> tracker_inv s2"
proof (induction cfg s associations rule: update_tracks.induct)
  case (1 cfg s)
  then show ?case by simp
next
  case (2 cfg s tid det_idx rest)
  from "2.prems"(1) obtain track where look: "map_of (tracks s) tid = Some track"
    by (auto split: option.splits)
  then have mem: "(tid, track) \<in> set (tracks s)" by (rule map_of_SomeD)
  show ?case
  proof (cases "current_detections s")
    case None
    with "2.prems" look "2.IH"(1) show ?thesis by simp
  next
    case (Some stored)
    with "2.prems"(1) look have idx: "det_idx < length stored"
      by (auto split: if_splits)
    obtain det_x det_y conf where det: "stored ! det_idx = (det_x, det_y, conf)"
      by (cases "stored ! det_idx") auto
    let ?t = "(kalman_correction cfg track (det_x, det_y))
                \<lparr> prediction_count := 0, last_detection_frame := frame_count s \<rparr>"
    let ?s = "s\<lparr> tracks := AList.update tid ?t (tracks s) \<rparr>"
    have run: "update_tracks cfg ?s rest = Inr s2"
      using "2.prems"(1) look Some idx det by simp
    have inv_s: "tracker_inv ?s"
      unfolding tracker_inv_def
    proof (intro conjI ballI)
      show "distinct (map fst (tracks ?s))"
        using "2.prems"(2) look by (simp add: tracker_inv_def keys_update_present)
    next
      fix e assume e_in: "e \<in> set (tracks ?s)"
      obtain k t where e: "e = (k, t)" by (cases e)
      with e_in have "(k, t) \<in> set (AList.update tid ?t (tracks s))" by simp
      then have "(k, t) \<in> set (tracks s) \<or> (k = tid \<and> t = ?t)"
        using set_update_cases by fastforce
      then show "case e of (k, track) \<Rightarrow>
          track_id track = k \<and> k < next_track_id ?s \<and> last_detection_frame track \<le> frame_count ?s"
        using "2.prems"(2) mem e by (auto simp: tracker_inv_def)
    qed
    show ?thesis
      using "2.IH"(2) [OF look Some idx det [symmetric] refl run inv_s] .
  qed
qed


lemma spawn_track_fields [simp]:
  "next_track_id (spawn_track s det) = next_track_id s + 1"
  "frame_count (spawn_track s det) = frame_count s"
  "current_detections (spawn_track s det) = current_detections s"
  by (simp_all add: spawn_track_def)

lemma new_track_fields [simp]:
  "track_id (new_track s det) = next_track_id s"
  "last_detection_frame (new_track s det) = frame_count s"
  by (simp_all add: new_track_def split: prod.splits)

lemma spawn_track_old:
  "k < next_track_id s \<Longrightarrow>
     (k, t) \<in> set (tracks (spawn_track s det)) \<longleftrightarrow> (k, t) \<in> set (tracks s)"
  by (simp add: spawn_track_def set_update_other)

lemma spawn_track_inv:
  assumes "tracker_inv s"
  shows "tracker_inv (spawn_track s det)"
proof -
  have fresh: "next_track_id s \<notin> fst ` set (tracks s)"
    using assms by (fastforce simp: tracker_inv_def)
  have keys: "map fst (tracks (spawn_track s det)) = map fst (tracks s) @ [next_track_id s]"
    using fresh by (simp add: spawn_track_def keys_update_absent)
  show ?thesis
    unfolding tracker_inv_def
  proof (intro conjI ballI)
    show "distinct (map fst (tracks (spawn_track s det)))"
      using assms fresh by (simp add: keys tracker_inv_def)
  next
    fix e assume e_in: "e \<in> set (tracks (spawn_track s det))"
    obtain k t where e: "e = (k, t)" by (cases e)
    with e_in have "(k, t) \<in> set (AList.update (next_track_id s) (new_track s det) (tracks s))"
      by (simp add: spawn_track_def)
    then have "(k, t) \<in> set (tracks s) \<or> (k = next_track_id s \<and> t = new_track s det)"
      using set_update_cases by fastforce
    then show "case e of (k, track) \<Rightarrow>
        track_id track = k \<and> k < next_track_id (spawn_track s det)
        \<and> last_detection_frame track \<le> frame_count (spawn_track s det)"
      using assms e by (auto simp: tracker_inv_def)
  qed
qed

lemma spawn_loop_fields [simp]:
  "frame_count (spawn_loop cfg A s ds) = frame_count s"
  "current_detections (spawn_loop cfg A s ds) = current_detections s"
  by (induction ds arbitrary: s) simp_all

lemma spawn_loop_next: "next_track_id s \<le> next_track_id (spawn_loop cfg A s ds)"
proof (induction ds arbitrary: s)
  case Nil
  then show ?case by simp
next
  case (Cons d ds)
  have "next_track_id s \<le> next_track_id (spawn_track s (snd d))" by simp
  also have "\<dots> \<le> next_track_id (spawn_loop cfg A (spawn_track s (snd d)) ds)"
    by (rule Cons.IH)
  finally show ?case using Cons.IH [of s] by simp
qed

lemma spawn_loop_old:
  "k < next_track_id s \<Longrightarrow>
     (k, t) \<in> set (tracks (spawn_loop cfg A s ds)) \<longleftrightarrow> (k, t) \<in> set (tracks s)"
proof (induction ds arbitrary: s)
  case Nil
  then show ?case by simp
next
  case (Cons d ds)
  show ?case
  proof (cases "spawns cfg A d")
    case True
    have "k < next_track_id (spawn_track s (snd d))" using Cons.prems by simp
    then show ?thesis
      using True Cons.IH [of "spawn_track s (snd d)"] Cons.prems
      by (simp add: spawn_track_old)
  next
    case False
    then show ?thesis using Cons by simp
  qed
qed

lemma spawn_loop_inv: "tracker_inv s \<Longrightarrow> tracker_inv (spawn_loop cfg A s ds)"
  by (induction ds arbitrary: s) (simp_all add: spawn_track_inv)

lemma create_new_tracks_inv: "tracker_inv s \<Longrightarrow> tracker_inv (create_new_tracks cfg s a ds)"
proof -
  assume "tracker_inv s"
  then have "tracker_inv (s\<lparr> current_detections := Some ds \<rparr>)"
    by (simp add: tracker_inv_def)
  then show ?thesis
    unfolding create_new_tracks_def by (rule spawn_loop_inv)
qed

lemma create_new_tracks_fields [simp]:
  "frame_count (create_new_tracks cfg s a ds) = frame_count s"
  by (simp add: create_new_tracks_def)

lemma create_new_tracks_next: "next_track_id s \<le> next_track_id (create_new_tracks cfg s a ds)"
  using spawn_loop_next [of "s\<lparr> current_detections := Some ds \<rparr>"]
  by (simp add: create_new_tracks_def)

lemma create_new_tracks_old:
  "k < next_track_id s \<Longrightarrow>
     (k, t) \<in> set (tracks (create_new_tracks cfg s a ds)) \<longleftrightarrow> (k, t) \<in> set (tracks s)"
  using spawn_loop_old [of k "s\<lparr> current_detections := Some ds \<rparr>"]
  by (simp add: create_new_tracks_def)

lemma cleanup_tracks_fields [simp]:
  "next_track_id (cleanup_tracks cfg s) = next_track_id s"
  "frame_count (cleanup_tracks cfg s) = frame_count s"
  by (simp_all add: cleanup_tracks_def)

lemma cleanup_tracks_entry:
  "(k, t) \<in> set (tracks (cleanup_tracks cfg s)) \<longleftrightarrow>
     (k, t) \<in> set (tracks s) \<and> keeps_track cfg s t"
  by (auto simp: cleanup_tracks_def)

lemma cleanup_tracks_inv: "tracker_inv s \<Longrightarrow> tracker_inv (cleanup_tracks cfg s)"
  by (auto simp: tracker_inv_def cleanup_tracks_def distinct_map_filter)

lemma update_confidence_fields [simp]:
  "next_track_id (update_confidence cfg s) = next_track_id s"
  "frame_count (update_confidence cfg s) = frame_count s"
  "map fst (tracks (update_confidence cfg s)) = map fst (tracks s)"
  by (auto simp: update_confidence_def)

lemma update_track_confidence_fields [simp]:
  "track_id (update_track_confidence cfg t) = track_id t"
  "last_detection_frame (update_track_confidence cfg t) = last_detection_frame t"
  by (simp_all add: update_track_confidence_def Let_def)

lemma update_confidence_entry:
  "(k, t1) \<in> set (tracks (update_confidence cfg s)) \<longleftrightarrow>
     (\<exists>t. (k, t) \<in> set (tracks s) \<and> t1 = update_track_confidence cfg t)"
  by (auto simp: update_confidence_def)

lemma update_confidence_inv:
  assumes "tracker_inv s"
  shows "tracker_inv (update_confidence cfg s)"
proof (rule tracker_invI)
  show "distinct (map fst (tracks (update_confidence cfg s)))"
    using assms by (simp add: tracker_inv_def)
next
  fix k t1 assume "(k, t1) \<in> set (tracks (update_confidence cfg s))"
  then obtain t where "(k, t) \<in> set (tracks s)" and "t1 = update_track_confidence cfg t"
    unfolding update_confidence_entry by blast
  then show "track_id t1 = k \<and> k < next_track_id (update_confidence cfg s)
      \<and> last_detection_frame t1 \<le> frame_count (update_confidence cfg s)"
    using tracker_invD [OF assms] by simp
qed

lemma predicted_inv:
  assumes "tracker_inv s"
  shows "tracker_inv (predicted cfg s)"
proof (rule tracker_invI)
  show "distinct (map fst (tracks (predicted cfg s)))"
    using assms by (simp add: tracker_inv_def)
next
  fix k t1 assume "(k, t1) \<in> set (tracks (predicted cfg s))"
  then obtain t where "(k, t) \<in> set (tracks s)" and "t1 = predict_track cfg t"
    unfolding predicted_entry by blast
  then show "track_id t1 = k \<and> k < next_track_id (predicted cfg s)
      \<and> last_detection_frame t1 \<le> frame_count (predicted cfg s)"
    using tracker_invD [OF assms, of k t] by simp
qed

lemma stored_under_own_id:
  "\<forall>(k, t) \<in> set al. track_id t = k \<Longrightarrow> map track_id (map snd al) = map fst al"
  by (induction al) auto

lemma tracker_inv_ids:
  assumes "tracker_inv s"
  shows "map track_id (tracking_states s) = map fst (tracks s)"
  unfolding tracking_states_def
  using assms by (intro stored_under_own_id) (auto simp: tracker_inv_def)

subsection \<open>A whole update\<close>

lemma tracker_update_inv:
  assumes "tracker_update cfg s detections = Inr s'" and "tracker_inv s"
  shows "tracker_inv s'"
proof -
  from assms(1) obtain associations s2 where
    u: "update_tracks cfg (predicted cfg s) associations = Inr s2" and
    s': "s' = update_confidence cfg (cleanup_tracks cfg (create_new_tracks cfg s2 associations detections))"
    by (rule tracker_update_cases)
  have "tracker_inv s2"
    using update_tracks_inv [OF u predicted_inv [OF assms(2)]] .
  then show ?thesis
    unfolding s' by (intro update_confidence_inv cleanup_tracks_inv create_new_tracks_inv)
qed

lemma tracker_update_counters:
  assumes "tracker_update cfg s detections = Inr s'"
  shows "frame_count s' = frame_count s + 1" and "next_track_id s \<le> next_track_id s'"
proof -
  from assms obtain associations s2 where
    u: "update_tracks cfg (predicted cfg s) associations = Inr s2" and
    s': "s' = update_confidence cfg (cleanup_tracks cfg (create_new_tracks cfg s2 associations detections))"
    by (rule tracker_update_cases)
  from update_tracks_fields [OF u]
  have f: "frame_count s2 = frame_count s + 1" and n: "next_track_id s2 = next_track_id s"
    by simp_all
  show "frame_count s' = frame_count s + 1" by (simp add: s' f)
  show "next_track_id s \<le> next_track_id s'"
    using create_new_tracks_next [of s2 cfg associations detections] by (simp add: s' n)
qed

lemma tracker_update_missed_bound:
  assumes "tracker_update cfg s detections = Inr s'" and "(k, t) \<in> set (tracks s')"
  shows "frame_count s' - last_detection_frame t \<le> max_missed_frames cfg"
proof -
  from assms(1) obtain associations s2 where
    s': "s' = update_confidence cfg (cleanup_tracks cfg (create_new_tracks cfg s2 associations detections))"
    by (rule tracker_update_cases)
  let ?c = "create_new_tracks cfg s2 associations detections"
  from assms(2) obtain t0 where "(k, t0) \<in> set (tracks (cleanup_tracks cfg ?c))"
    and t: "t = update_track_confidence cfg t0"
    unfolding s' update_confidence_entry by blast
  then have "keeps_track cfg ?c t0" by (simp add: cleanup_tracks_entry)
  then show ?thesis
    by (simp add: s' t keeps_track_def)
qed

text \<open>A track that is present after an update in which it was not matched was present
  before, with the same frame of last detection.\<close>

lemma tracker_update_unmatched:
  assumes upd: "tracker_update cfg s detections = Inr s'"
    and un: "unmatched cfg s detections tid"
    and old: "tid < next_track_id s"
    and mem: "(tid, t') \<in> set (tracks s')"
  shows "\<exists>t. (tid, t) \<in> set (tracks s) \<and> last_detection_frame t' = last_detection_frame t"
proof -
  from upd obtain associations s2 where
    a: "associate_detections cfg (predicted cfg s) detections = Inr associations" and
    u: "update_tracks cfg (predicted cfg s) associations = Inr s2" and
    s': "s' = update_confidence cfg (cleanup_tracks cfg (create_new_tracks cfg s2 associations detections))"
    by (rule tracker_update_cases)
  from un a have "map_of associations tid = None" by (simp add: unmatched_def)
  then have notin: "tid \<notin> fst ` set associations" by (simp add: map_of_eq_None_iff)
  from update_tracks_fields [OF u] have n: "next_track_id s2 = next_track_id s" by simp
  from mem obtain t0 where
    "(tid, t0) \<in> set (tracks (cleanup_tracks cfg (create_new_tracks cfg s2 associations detections)))"
    and t': "t' = update_track_confidence cfg t0"
    unfolding s' update_confidence_entry by blast
  then have "(tid, t0) \<in> set (tracks (create_new_tracks cfg s2 associations detections))"
    by (simp add: cleanup_tracks_entry)
  then have "(tid, t0) \<in> set (tracks s2)"
    using old n by (simp add: create_new_tracks_old)
  then have "(tid, t0) \<in> set (tracks (predicted cfg s))"
    using update_tracks_other [OF u notin] by simp
  then obtain t where "(tid, t) \<in> set (tracks s)" and "t0 = predict_track cfg t"
    unfolding predicted_entry by blast
  then show ?thesis using t' by auto
qed

text \<open>An id below \<open>next_track_id\<close> that is not in the dictionary does not come back.\<close>

lemma tracker_update_gone:
  assumes upd: "tracker_update cfg s detections = Inr s'"
    and old: "tid < next_track_id s"
    and gone: "tid \<notin> fst ` set (tracks s)"
  shows "tid \<notin> fst ` set (tracks s')"
proof
  assume "tid \<in> fst ` set (tracks s')"
  then obtain t' where mem: "(tid, t') \<in> set (tracks s')" by auto
  from upd obtain associations s2 where
    u: "update_tracks cfg (predicted cfg s) associations = Inr s2" and
    s': "s' = update_confidence cfg (cleanup_tracks cfg (create_new_tracks cfg s2 associations detections))"
    by (rule tracker_update_cases)
  from update_tracks_fields [OF u] have n: "next_track_id s2 = next_track_id s"
    and keys: "map fst (tracks s2) = map fst (tracks s)" by simp_all
  from mem obtain t0 where
    "(tid, t0) \<in> set (tracks (cleanup_tracks cfg (create_new_tracks cfg s2 associations detections)))"
    unfolding s' update_confidence_entry by blast
  then have "(tid, t0) \<in> set (tracks (create_new_tracks cfg s2 associations detections))"
    by (simp add: cleanup_tracks_entry)
  then have "(tid, t0) \<in> set (tracks s2)"
    using old n by (simp add: create_new_tracks_old)
  then have "tid \<in> set (map fst (tracks s2))" by force
  with keys gone show False by simp
qed

lemma update_track_confidence_range:
  "0 \<le> confidence (update_track_confidence cfg track) \<and>
   confidence (update_track_confidence cfg track) \<le> 1"
  by (simp add: update_track_confidence_def Let_def)

lemma update_confidence_range:
  "track \<in> set (tracking_states (update_confidence cfg s)) \<Longrightarrow>
     0 \<le> confidence track \<and> confidence track \<le> 1"
  using update_track_confidence_range
  by (auto simp: tracking_states_def update_confidence_def)

text \<open>
  Claim C7: after every \<open>update\<close> call, from any tracker state and with any detections
  (whatever their confidence values), every track in the returned list has its
  confidence in \<open>[0, 1]\<close>.
\<close>

theorem confidence_in_unit_interval:
  assumes "tracker_update cfg s detections = Inr s'"
  shows "list_all (\<lambda>track. 0 \<le> confidence track \<and> confidence track \<le> 1) (tracking_states s')"
proof -
  from assms obtain associations s2 where
    "s' = update_confidence cfg (cleanup_tracks cfg (create_new_tracks cfg s2 associations detections))"
    by (rule tracker_update_cases)
  then show ?thesis
    using update_confidence_range by (simp add: list_all_iff)
qed

lemma alist_update_fresh:
  "map_of al k = None \<Longrightarrow> AList.update k v al = al @ [(k, v)]"
  by (induction al) (auto split: if_splits)

lemma greedy_match_one_to_one:
  assumes "distinct (map fst associations)" and "distinct (map snd associations)"
    and "snd ` set associations \<subseteq> used"
  shows "distinct (map fst (greedy_match pairs associations used)) \<and>
         distinct (map snd (greedy_match pairs associations used))"
  using assms
proof (induction pairs associations used rule: greedy_match.induct)
  case (1 associations used)
  then show ?case by simp
next
  case (2 tid det_idx distance rest associations used)
  show ?case
  proof (cases "map_of associations tid = None \<and> det_idx \<notin> used")
    case True
    then have upd: "AList.update tid det_idx associations = associations @ [(tid, det_idx)]"
      by (simp add: alist_update_fresh)
    from True have "tid \<notin> fst ` set associations"
      by (simp add: map_of_eq_None_iff)
    moreover from True "2.prems"(3) have "det_idx \<notin> snd ` set associations" by auto
    ultimately have "distinct (map fst (associations @ [(tid, det_idx)]))"
      and "distinct (map snd (associations @ [(tid, det_idx)]))"
      and "snd ` set (associations @ [(tid, det_idx)]) \<subseteq> insert det_idx used"
      using "2.prems" by auto
    with True upd "2.IH"(1) show ?thesis by simp
  next
    case False
    with "2.IH"(2) "2.prems" show ?thesis by auto
  qed
qed

text \<open>
  Claim C8: for every tracker state and every detection list, the association computed
  in an \<open>update\<close> call is one-to-one: no track id occurs twice among its keys and no
  detection index occurs twice among its values.
\<close>

theorem association_one_to_one:
  assumes "associate_detections cfg s detections = Inr associations"
  shows "distinct (map fst associations) \<and> distinct (map snd associations)"
proof -
  from assms obtain distances where
    "associations = greedy_match (sort_key snd distances) [] {}"
    by (auto simp: associate_detections_def split: sum.splits)
  then show ?thesis
    using greedy_match_one_to_one [of "[]" "{}" "sort_key snd distances"] by simp
qed

subsection \<open>Runs\<close>

lemma new_tracker_inv: "tracker_inv new_tracker"
  by (simp add: tracker_inv_def new_tracker_def)

lemma tracker_run_inv:
  "tracker_run cfg s dss = Inr s' \<Longrightarrow> tracker_inv s \<Longrightarrow> tracker_inv s'"
proof (induction dss arbitrary: s)
  case Nil
  then show ?case by simp
next
  case (Cons d dss)
  from Cons.prems(1) obtain s1 where
    u: "tracker_update cfg s d = Inr s1" and r: "tracker_run cfg s1 dss = Inr s'"
    by (auto split: sum.splits)
  show ?case
    using Cons.IH [OF r tracker_update_inv [OF u Cons.prems(2)]] .
qed

lemma tracker_run_next:
  "tracker_run cfg s dss = Inr s' \<Longrightarrow> next_track_id s \<le> next_track_id s'"
proof (induction dss arbitrary: s)
  case Nil
  then show ?case by simp
next
  case (Cons d dss)
  from Cons.prems obtain s1 where
    u: "tracker_update cfg s d = Inr s1" and r: "tracker_run cfg s1 dss = Inr s'"
    by (auto split: sum.splits)
  show ?case
    using Cons.IH [OF r] tracker_update_counters(2) [OF u] by simp
qed

lemma tracker_run_missed_bound:
  "tracker_run cfg s dss = Inr s' \<Longrightarrow> dss \<noteq> [] \<Longrightarrow> (k, t) \<in> set (tracks s') \<Longrightarrow>
     frame_count s' - last_detection_frame t \<le> max_missed_frames cfg"
proof (induction dss arbitrary: s)
  case Nil
  then show ?case by simp
next
  case (Cons d dss)
  from Cons.prems(1) obtain s1 where
    u: "tracker_update cfg s d = Inr s1" and r: "tracker_run cfg s1 dss = Inr s'"
    by (auto split: sum.splits)
  show ?case
  proof (cases "dss = []")
    case True
    with r have "s' = s1" by simp
    then show ?thesis using tracker_update_missed_bound [OF u] Cons.prems(3) by simp
  next
    case False
    then show ?thesis using Cons.IH [OF r _ Cons.prems(3)] by simp
  qed
qed

lemma missed_streak_frames:
  assumes "tracker_run cfg s dss = Inr s'" and "missed_streak cfg tid s dss"
    and "tid < next_track_id s" and "(tid, t') \<in> set (tracks s')"
  shows "\<exists>t. (tid, t) \<in> set (tracks s) \<and> last_detection_frame t' = last_detection_frame t
           \<and> frame_count s' = frame_count s + int (length dss)"
  using assms
proof (induction dss arbitrary: s)
  case Nil
  then show ?case by auto
next
  case (Cons d dss)
  from Cons.prems(1) obtain s1 where
    u: "tracker_update cfg s d = Inr s1" and r: "tracker_run cfg s1 dss = Inr s'"
    by (auto split: sum.splits)
  from Cons.prems(2) u have un: "unmatched cfg s d tid" and st: "missed_streak cfg tid s1 dss"
    by simp_all
  have old1: "tid < next_track_id s1"
    using tracker_update_counters(2) [OF u] Cons.prems(3) by simp
  from Cons.IH [OF r st old1 Cons.prems(4)] obtain t1 where
    m1: "(tid, t1) \<in> set (tracks s1)" and l1: "last_detection_frame t' = last_detection_frame t1"
    and f1: "frame_count s' = frame_count s1 + int (length dss)"
    by blast
  from tracker_update_unmatched [OF u un Cons.prems(3) m1] obtain t where
    "(tid, t) \<in> set (tracks s)" and "last_detection_frame t1 = last_detection_frame t"
    by blast
  then show ?case
    using l1 f1 tracker_update_counters(1) [OF u] by auto
qed

text \<open>
  Claim C9: a track that receives no detection in more than \<open>max_missed_frames\<close>
  consecutive \<open>update\<close> calls is absent from the result of the next call. Here \<open>s\<close> is
  any tracker reached from a new one by \<open>update\<close> calls, \<open>tid\<close> the id of one of its
  tracks, and \<open>dss\<close> the detections of the consecutive calls in which that track is
  not matched. The track is in fact already absent from the result of the last of
  these calls.
\<close>

theorem missed_track_retired:
  assumes reach: "tracker_run cfg new_tracker history = Inr s"
    and present: "tid \<in> fst ` set (tracks s)"
    and streak: "missed_streak cfg tid s dss"
    and run: "tracker_run cfg s dss = Inr s'"
    and long: "int (length dss) > max_missed_frames cfg"
    and nxt: "tracker_update cfg s' detections = Inr s''"
  shows "tid \<notin> track_id ` set (tracking_states s'') \<and>
         (dss \<noteq> [] \<longrightarrow> tid \<notin> track_id ` set (tracking_states s'))"
proof -
  have inv: "tracker_inv s" using tracker_run_inv [OF reach new_tracker_inv] .
  have inv': "tracker_inv s'" using tracker_run_inv [OF run inv] .
  have inv'': "tracker_inv s''" using tracker_update_inv [OF nxt inv'] .
  from present obtain t where "(tid, t) \<in> set (tracks s)" by auto
  from tracker_invD [OF inv this] have old: "tid < next_track_id s" by simp
  have old': "tid < next_track_id s'" using old tracker_run_next [OF run] by simp
  have gone': "tid \<notin> fst ` set (tracks s')" if "dss \<noteq> []"
  proof
    assume "tid \<in> fst ` set (tracks s')"
    then obtain t' where mem': "(tid, t') \<in> set (tracks s')" by auto
    from missed_streak_frames [OF run streak old mem'] obtain t0 where
      m0: "(tid, t0) \<in> set (tracks s)" and l: "last_detection_frame t' = last_detection_frame t0"
      and f: "frame_count s' = frame_count s + int (length dss)"
      by blast
    from tracker_invD [OF inv m0] have "last_detection_frame t0 \<le> frame_count s" by simp
    with l f long have "frame_count s' - last_detection_frame t' > max_missed_frames cfg"
      by simp
    with tracker_run_missed_bound [OF run that mem'] show False by simp
  qed
  have gone'': "tid \<notin> fst ` set (tracks s'')"
  proof (cases "dss = []")
    case False
    from tracker_update_gone [OF nxt old' gone' [OF False]] show ?thesis .
  next
    case True
    with long have neg: "max_missed_frames cfg < 0" by simp
    show ?thesis
    proof
      assume "tid \<in> fst ` set (tracks s'')"
      then obtain t'' where mem'': "(tid, t'') \<in> set (tracks s'')" by auto
      from tracker_invD [OF inv'' mem''] have "last_detection_frame t'' \<le> frame_count s''"
        by simp
      with tracker_update_missed_bound [OF nxt mem''] neg show False by simp
    qed
  qed
  have "tid \<notin> track_id ` set (tracking_states s'')"
    using gone'' tracker_inv_ids [OF inv''] by (metis image_set)
  moreover have "tid \<notin> track_id ` set (tracking_states s')" if "dss \<noteq> []"
    using gone' [OF that] tracker_inv_ids [OF inv'] by (metis image_set)
  ultimately show ?thesis by blast
qed

subsection \<open>Track identifiers\<close>

lemma spawned_ids_range:
  "i \<in> set (spawned_ids cfg A s ds) \<Longrightarrow>
     next_track_id s \<le> i \<and> i < next_track_id (spawn_loop cfg A s ds)"
proof (induction ds arbitrary: s)
  case Nil
  then show ?case by simp
next
  case (Cons d ds)
  show ?case
  proof (cases "spawns cfg A d")
    case True
    from Cons.prems True
    have "i = next_track_id s \<or> i \<in> set (spawned_ids cfg A (spawn_track s (snd d)) ds)"
      by simp
    then show ?thesis
    proof
      assume "i = next_track_id s"
      then show ?thesis
        using True spawn_loop_next [of "spawn_track s (snd d)" cfg A ds] by simp
    next
      assume "i \<in> set (spawned_ids cfg A (spawn_track s (snd d)) ds)"
      from Cons.IH [OF this] show ?thesis using True by simp
    qed
  next
    case False
    with Cons show ?thesis by simp
  qed
qed

lemma spawned_ids_increasing: "sorted_wrt (<) (spawned_ids cfg A s ds)"
proof (induction ds arbitrary: s)
  case Nil
  then show ?case by simp
next
  case (Cons d ds)
  show ?case
  proof (cases "spawns cfg A d")
    case True
    have "\<forall>i \<in> set (spawned_ids cfg A (spawn_track s (snd d)) ds). next_track_id s < i"
      using spawned_ids_range [of _ cfg A "spawn_track s (snd d)" ds] by fastforce
    with True Cons.IH show ?thesis by simp
  next
    case False
    with Cons.IH show ?thesis by simp
  qed
qed

lemma spawn_loop_keys:
  "fst ` set (tracks (spawn_loop cfg A s ds)) \<subseteq>
     fst ` set (tracks s) \<union> set (spawned_ids cfg A s ds)"
proof (induction ds arbitrary: s)
  case Nil
  then show ?case by simp
next
  case (Cons d ds)
  show ?case
  proof (cases "spawns cfg A d")
    case True
    have "fst ` set (tracks (spawn_track s (snd d))) \<subseteq> insert (next_track_id s) (fst ` set (tracks s))"
    proof
      fix k assume "k \<in> fst ` set (tracks (spawn_track s (snd d)))"
      then obtain t where "(k, t) \<in> set (AList.update (next_track_id s) (new_track s (snd d)) (tracks s))"
        by (auto simp: spawn_track_def)
      from set_update_cases [OF this]
      show "k \<in> insert (next_track_id s) (fst ` set (tracks s))" by force
    qed
    with Cons.IH [of "spawn_track s (snd d)"] True show ?thesis by auto
  next
    case False
    with Cons.IH show ?thesis by simp
  qed
qed

text \<open>The ids created by one call lie between the old and the new \<open>next_track_id\<close>.\<close>

lemma created_in_update_range:
  assumes "i \<in> set (created_in_update cfg s detections)"
  shows "next_track_id s \<le> i"
    and "tracker_update cfg s detections = Inr s' \<Longrightarrow> i < next_track_id s'"
proof -
  obtain associations where
    a: "associate_detections cfg (predicted cfg s) detections = Inr associations"
    using assms
    by (cases "associate_detections cfg (predicted cfg s) detections")
       (auto simp: created_in_update_def)
  obtain s2 where
    u: "update_tracks cfg (predicted cfg s) associations = Inr s2"
    using assms a
    by (cases "update_tracks cfg (predicted cfg s) associations")
       (auto simp: created_in_update_def)
  have i: "i \<in> set (spawned_ids cfg (set (map snd associations))
                   (s2\<lparr> current_detections := Some detections \<rparr>) (enumerate 0 detections))"
    using assms a u by (simp add: created_in_update_def)
  from update_tracks_fields [OF u] have n: "next_track_id s2 = next_track_id s" by simp
  from spawned_ids_range [OF i] n
  have r: "next_track_id s \<le> i"
    "i < next_track_id (create_new_tracks cfg s2 associations detections)"
    by (simp_all add: create_new_tracks_def)
  show "next_track_id s \<le> i" by (rule r)
  assume "tracker_update cfg s detections = Inr s'"
  then have "s' = update_confidence cfg (cleanup_tracks cfg
                    (create_new_tracks cfg s2 associations detections))"
    using a u by (simp add: tracker_update_def)
  with r show "i < next_track_id s'" by simp
qed

lemma created_in_update_increasing: "sorted_wrt (<) (created_in_update cfg s detections)"
  by (auto simp: created_in_update_def Let_def spawned_ids_increasing split: sum.splits)

lemma tracker_update_keys:
  assumes "tracker_update cfg s detections = Inr s'"
  shows "fst ` set (tracks s') \<subseteq> fst ` set (tracks s) \<union> set (created_in_update cfg s detections)"
proof -
  from assms obtain associations s2 where
    a: "associate_detections cfg (predicted cfg s) detections = Inr associations" and
    u: "update_tracks cfg (predicted cfg s) associations = Inr s2" and
    s': "s' = update_confidence cfg (cleanup_tracks cfg (create_new_tracks cfg s2 associations detections))"
    by (rule tracker_update_cases)
  have c: "created_in_update cfg s detections =
      spawned_ids cfg (set (map snd associations))
        (s2\<lparr> current_detections := Some detections \<rparr>) (enumerate 0 detections)"
    using a u by (simp add: created_in_update_def)
  have "set (map fst (tracks s2)) = set (map fst (tracks s))"
    using update_tracks_fields [OF u] by simp
  then have k2: "fst ` set (tracks s2) = fst ` set (tracks s)" by simp
  have "fst ` set (tracks s') = fst ` set (tracks (cleanup_tracks cfg (create_new_tracks cfg s2 associations detections)))"
    unfolding s' using update_confidence_fields(3) [of cfg] by (metis set_map)
  also have "\<dots> \<subseteq> fst ` set (tracks (create_new_tracks cfg s2 associations detections))"
    by (auto simp: cleanup_tracks_def)
  also have "\<dots> \<subseteq> fst ` set (tracks s2) \<union> set (created_in_update cfg s detections)"
    unfolding c create_new_tracks_def
    using spawn_loop_keys [of cfg _ "s2\<lparr> current_detections := Some detections \<rparr>"] by simp
  finally show ?thesis using k2 by simp
qed

lemma created_in_run_lower:
  "i \<in> set (created_in_run cfg s dss) \<Longrightarrow> next_track_id s \<le> i"
proof (induction dss arbitrary: s)
  case Nil
  then show ?case by simp
next
  case (Cons d dss)
  from Cons.prems consider
    (now) "i \<in> set (created_in_update cfg s d)"
    | (later) s1 where "tracker_update cfg s d = Inr s1" "i \<in> set (created_in_run cfg s1 dss)"
    by (cases "tracker_update cfg s d") auto
  then show ?case
  proof cases
    case now
    then show ?thesis by (rule created_in_update_range(1))
  next
    case later
    from Cons.IH [OF later(2)] tracker_update_counters(2) [OF later(1)]
    show ?thesis by simp
  qed
qed

lemma created_in_run_increasing: "sorted_wrt (<) (created_in_run cfg s dss)"
proof (induction dss arbitrary: s)
  case Nil
  then show ?case by simp
next
  case (Cons d dss)
  show ?case
  proof (cases "tracker_update cfg s d")
    case (Inl e)
    then show ?thesis by (simp add: created_in_update_increasing)
  next
    case (Inr s1)
    have "\<forall>i \<in> set (created_in_update cfg s d). \<forall>j \<in> set (created_in_run cfg s1 dss). i < j"
    proof (intro ballI)
      fix i j
      assume i: "i \<in> set (created_in_update cfg s d)" and j: "j \<in> set (created_in_run cfg s1 dss)"
      from created_in_update_range(2) [OF i Inr] created_in_run_lower [OF j]
      show "i < j" by simp
    qed
    with Inr Cons.IH [of s1] show ?thesis
      by (simp add: sorted_wrt_append created_in_update_increasing)
  qed
qed

lemma tracker_run_keys:
  "tracker_run cfg s dss = Inr s' \<Longrightarrow>
     fst ` set (tracks s') \<subseteq> fst ` set (tracks s) \<union> set (created_in_run cfg s dss)"
proof (induction dss arbitrary: s)
  case Nil
  then show ?case by simp
next
  case (Cons d dss)
  from Cons.prems obtain s1 where
    u: "tracker_update cfg s d = Inr s1" and r: "tracker_run cfg s1 dss = Inr s'"
    by (auto split: sum.splits)
  from Cons.IH [OF r] tracker_update_keys [OF u] u show ?case by auto
qed

text \<open>
  Claim C10: over every sequence of \<open>update\<close> calls on a new tracker, without a reset,
  the ids handed out to created tracks are strictly increasing in the order of creation,
  so no two created tracks share an id and no id of a retired track is used again; the
  tracks returned by the last call carry distinct ids, each of them one of the ids handed
  out.
\<close>

theorem track_ids_unique_increasing:
  assumes "tracker_run cfg new_tracker dss = Inr s'"
  shows "sorted_wrt (<) (created_in_run cfg new_tracker dss) \<and>
         distinct (map track_id (tracking_states s')) \<and>
         set (map track_id (tracking_states s')) \<subseteq> set (created_in_run cfg new_tracker dss)"
proof -
  have inv: "tracker_inv s'" using tracker_run_inv [OF assms new_tracker_inv] .
  have ids: "map track_id (tracking_states s') = map fst (tracks s')"
    using tracker_inv_ids [OF inv] .
  have "distinct (map fst (tracks s'))" using inv by (simp add: tracker_inv_def)
  moreover have "set (map fst (tracks s')) \<subseteq> set (created_in_run cfg new_tracker dss)"
    using tracker_run_keys [OF assms] by (simp add: new_tracker_def)
  ultimately show ?thesis
    using created_in_run_increasing [of cfg new_tracker dss] by (simp add: ids)
qed

subsection \<open>Evaluating updates\<close>

lemma all_distances_no_detections: "all_distances cfg used [] ts distances = Inr distances"
  by (induction ts arbitrary: distances) (auto simp: enumerate_eq_zip)

lemma associate_no_detections: "associate_detections cfg s [] = Inr []"
  by (simp add: associate_detections_def all_distances_no_detections)

lemma associate_no_tracks: "tracks s = [] \<Longrightarrow> associate_detections cfg s detections = Inr []"
  by (simp add: associate_detections_def)

lemma tracker_update_unassociated:
  "associate_detections cfg (predicted cfg s) detections = Inr [] \<Longrightarrow>
     tracker_update cfg s detections =
       Inr (update_confidence cfg (cleanup_tracks cfg
              (create_new_tracks cfg (predicted cfg s) [] detections)))"
  by (simp add: tracker_update_def)

lemma tracker_update_associated:
  "associate_detections cfg (predicted cfg s) detections = Inr associations \<Longrightarrow>
   update_tracks cfg (predicted cfg s) associations = Inr s2 \<Longrightarrow>
     tracker_update cfg s detections =
       Inr (update_confidence cfg (cleanup_tracks cfg
              (create_new_tracks cfg s2 associations detections)))"
  by (simp add: tracker_update_def)

lemma tracker_update_new:
  "tracker_update cfg new_tracker detections =
     Inr (update_confidence cfg (cleanup_tracks cfg
            (create_new_tracks cfg (predicted cfg new_tracker) [] detections)))"
  by (rule tracker_update_unassociated, rule associate_no_tracks)
     (simp add: predicted_def predict_tracks_def new_tracker_def)

text \<open>
  After \<open>reset\<close> the tracker still has the attribute \<open>_current_detections\<close>, but its
  first \<open>update\<close> overwrites it before reading it: the call gives what it gives on a new
  tracker.
\<close>

lemma tracker_reset_like_new:
  "tracker_update cfg (tracker_reset s) detections = tracker_update cfg new_tracker detections"
proof -
  have a: "associate_detections cfg (predicted cfg (tracker_reset s)) detections = Inr []"
    by (rule associate_no_tracks) (simp add: predicted_def predict_tracks_def tracker_reset_def)
  have "(predicted cfg (tracker_reset s))\<lparr> current_detections := Some detections \<rparr> =
        (predicted cfg new_tracker)\<lparr> current_detections := Some detections \<rparr>"
    by (simp add: predicted_def predict_tracks_def tracker_reset_def new_tracker_def)
  then have "create_new_tracks cfg (predicted cfg (tracker_reset s)) [] detections =
             create_new_tracks cfg (predicted cfg new_tracker) [] detections"
    by (simp add: create_new_tracks_def)
  then show ?thesis
    by (simp add: tracker_update_unassociated [OF a] tracker_update_new)
qed

lemma tracker_update_no_detections:
  "tracker_update cfg s [] =
     Inr (update_confidence cfg (cleanup_tracks cfg (create_new_tracks cfg (predicted cfg s) [] [])))"
  by (rule tracker_update_unassociated) (rule associate_no_detections)

lemma sqrt_less_iff: "0 \<le> c \<Longrightarrow> sqrt x < c \<longleftrightarrow> x < c * c"
  by (metis abs_of_nonneg real_sqrt_abs2 real_sqrt_less_iff)

lemma mahalanobis_regular:
  "linalg_inv (innovation_covariance cfg track) = Some S_inv \<Longrightarrow>
   dot (vec_mat (innovation track det) S_inv) (innovation track det) = q \<Longrightarrow> 0 \<le> q \<Longrightarrow>
     mahalanobis_distance cfg track det = Inr (sqrt q)"
  by (simp add: mahalanobis_distance_def Let_def math_sqrt_def)

lemma first_update: "tracker_update default_config new_tracker [(100, 200, 4/5)] = Inr one_track"
  unfolding tracker_update_new by code_simp

lemma first_update_loud: "tracker_update default_config new_tracker [(100, 200, 5)] = Inr clamped_track"
  unfolding tracker_update_new by code_simp

lemma first_update_short: "tracker_update short_memory_config new_tracker [(100, 200, 4/5)] = Inr one_track"
  unfolding tracker_update_new by code_simp

lemma first_update_two:
  "tracker_update default_config new_tracker [(100, 200, 4/5), (300, 300, 4/5)] = Inr two_tracks"
  unfolding tracker_update_new by code_simp

lemma one_track_predicted: "predicted default_config one_track = one_track_predicted"
  by code_simp

lemma two_tracks_predicted: "predicted default_config two_tracks = two_tracks_predicted"
  by code_simp

lemma first_track_inverse:
  "linalg_inv (innovation_covariance default_config first_track_predicted) = Some [[1/211, 0], [0, 1/211]]"
  by code_simp

lemma second_track_inverse:
  "linalg_inv (innovation_covariance default_config
     (first_track_predicted\<lparr> state := [300, 300, 0, 0], track_id := 1 \<rparr>)) = Some [[1/211, 0], [0, 1/211]]"
  by code_simp

lemma distance_same: "mahalanobis_distance default_config first_track_predicted (100, 200) = Inr 0"
proof -
  have "dot (vec_mat (innovation first_track_predicted (100, 200)) [[1/211, 0], [0, 1/211]])
            (innovation first_track_predicted (100, 200)) = 0"
    by code_simp
  from mahalanobis_regular [OF first_track_inverse this] show ?thesis by simp
qed

lemma distance_moved:
  "mahalanobis_distance default_config first_track_predicted (110, 200) = Inr (sqrt (100/211))"
proof -
  have "dot (vec_mat (innovation first_track_predicted (110, 200)) [[1/211, 0], [0, 1/211]])
            (innovation first_track_predicted (110, 200)) = 100/211"
    by code_simp
  from mahalanobis_regular [OF first_track_inverse this] show ?thesis by simp
qed

lemma distance_other:
  "mahalanobis_distance default_config first_track_predicted (300, 300) = Inr (sqrt (50000/211))"
proof -
  have "dot (vec_mat (innovation first_track_predicted (300, 300)) [[1/211, 0], [0, 1/211]])
            (innovation first_track_predicted (300, 300)) = 50000/211"
    by code_simp
  from mahalanobis_regular [OF first_track_inverse this] show ?thesis by simp
qed

lemma distance_far_first:
  "mahalanobis_distance default_config first_track_predicted (5000, 5000) = Inr (sqrt (47050000/211))"
proof -
  have "dot (vec_mat (innovation first_track_predicted (5000, 5000)) [[1/211, 0], [0, 1/211]])
            (innovation first_track_predicted (5000, 5000)) = 47050000/211"
    by code_simp
  from mahalanobis_regular [OF first_track_inverse this] show ?thesis by simp
qed

lemma distance_far_second:
  "mahalanobis_distance default_config
     (first_track_predicted\<lparr> state := [300, 300, 0, 0], track_id := 1 \<rparr>) (5000, 5000)
     = Inr (sqrt (44180000/211))"
proof -
  have "dot (vec_mat (innovation (first_track_predicted\<lparr> state := [300, 300, 0, 0], track_id := 1 \<rparr>)
                        (5000, 5000)) [[1/211, 0], [0, 1/211]])
            (innovation (first_track_predicted\<lparr> state := [300, 300, 0, 0], track_id := 1 \<rparr>)
                        (5000, 5000)) = 44180000/211"
    by code_simp
  from mahalanobis_regular [OF second_track_inverse this] show ?thesis by simp
qed

lemma gate_default: "association_gate_threshold default_config = 50"
  by (simp add: default_config_def)

lemma associate_moved:
  "associate_detections default_config one_track_predicted [(110, 200, 9/10)] = Inr [(0, 0)]"
proof -
  have "all_distances default_config {} [(110, 200, 9/10)] (tracks one_track_predicted) []
      = Inr [((0, 0), sqrt (100/211))]"
    by (simp add: one_track_predicted_def enumerate_eq_zip distance_moved gate_default sqrt_less_iff)
  then show ?thesis by (simp add: associate_detections_def)
qed

lemma associate_two_detections:
  "associate_detections default_config one_track_predicted [(300, 300, 9/10), (100, 200, 9/10)]
     = Inr [(0, 1)]"
proof -
  have e: "enumerate 0 [(300, 300, 9/10), (100, 200, 9/10::real)]
      = [(0, (300, 300, 9/10)), (Suc 0, (100, 200, 9/10))]"
    by (simp add: enumerate_eq_zip upt_rec)
  have "all_distances default_config {} [(300, 300, 9/10), (100, 200, 9/10)]
          (tracks one_track_predicted) []
      = Inr [((0, 0), sqrt (50000/211)), ((0, 1), 0)]"
    by (simp add: one_track_predicted_def e distance_other distance_same gate_default sqrt_less_iff)
  then show ?thesis by (simp add: associate_detections_def)
qed

lemma associate_far:
  "associate_detections default_config two_tracks_predicted [(5000, 5000, 4/5)] = Inr []"
proof -
  have "all_distances default_config {} [(5000, 5000, 4/5)] (tracks two_tracks_predicted) [] = Inr []"
    by (simp add: two_tracks_predicted_def enumerate_eq_zip distance_far_first distance_far_second
        gate_default sqrt_less_iff)
  then show ?thesis by (simp add: associate_detections_def)
qed

lemmas matrix_defs = mat_mul_def vec_mat_def mat_vec_def dot_def mat_add_def mat_sub_def
  vec_add_def vec_sub_def eye4_def H_mat_def F_mat_def R_mat_def Q_mat_def

lemma tracker_update_raises:
  "associate_detections cfg (predicted cfg s) detections = Inr associations \<Longrightarrow>
   update_tracks cfg (predicted cfg s) associations = Inl e \<Longrightarrow>
     tracker_update cfg s detections = Inl e"
  by (simp add: tracker_update_def)

lemma correction_stale:
  "kalman_correction default_config first_track_predicted (100, 200) =
     first_track_predicted\<lparr> covariance :=
       [[2010/211, 0, 1000/211, 0], [0, 2010/211, 0, 1000/211],
        [1000/211, 0, 22411/422, 0], [0, 1000/211, 0, 22411/422]] \<rparr>"
  by (simp add: kalman_correction_def innovation_def innovation_covariance_def
      first_track_predicted_def default_config_def matrix_defs Let_def)

lemma correction_current:
  "state (kalman_correction default_config first_track_predicted (110, 200)) =
     [23110/211, 200, 1000/211, 0]"
  by (simp add: kalman_correction_def innovation_def innovation_covariance_def
      first_track_predicted_def default_config_def matrix_defs Let_def)

lemma second_update_stale:
  "tracker_update default_config one_track [(110, 200, 9/10)] = Inr one_track_stale"
proof -
  have a: "associate_detections default_config (predicted default_config one_track)
             [(110, 200, 9/10)] = Inr [(0, 0)]"
    by (simp add: one_track_predicted associate_moved)
  have u: "update_tracks default_config (predicted default_config one_track) [(0, 0)] =
      Inr (one_track_predicted\<lparr> tracks :=
             [(0, first_track_predicted\<lparr> covariance :=
                    [[2010/211, 0, 1000/211, 0], [0, 2010/211, 0, 1000/211],
                     [1000/211, 0, 22411/422, 0], [0, 1000/211, 0, 22411/422]],
                  prediction_count := 0, last_detection_frame := 2 \<rparr>)] \<rparr>)"
    by (simp add: one_track_predicted) (simp add: one_track_predicted_def correction_stale)
  show ?thesis
    unfolding tracker_update_associated [OF a u]
    by (simp add: one_track_predicted_def first_track_predicted_def one_track_stale_def
        create_new_tracks_def spawns_def cleanup_tracks_def keeps_track_def update_confidence_def
        update_track_confidence_def default_config_def enumerate_eq_zip Let_def)
qed

lemma second_update_index_error:
  "tracker_update default_config one_track [(300, 300, 9/10), (100, 200, 9/10)] = Inl IndexError"
proof -
  have a: "associate_detections default_config (predicted default_config one_track)
             [(300, 300, 9/10), (100, 200, 9/10)] = Inr [(0, 1)]"
    by (simp add: one_track_predicted associate_two_detections)
  have u: "update_tracks default_config (predicted default_config one_track) [(0, 1)] = Inl IndexError"
    by code_simp
  show ?thesis
    using a u by (rule tracker_update_raises)
qed

lemma second_update_far:
  "tracker_update default_config two_tracks [(5000, 5000, 4/5)] = Inr three_tracks"
proof -
  have a: "associate_detections default_config (predicted default_config two_tracks)
             [(5000, 5000, 4/5)] = Inr []"
    by (simp add: two_tracks_predicted associate_far)
  show ?thesis
    unfolding tracker_update_unassociated [OF a] by code_simp
qed

lemma missed_once: "tracker_update short_memory_config one_track [] = Inr one_track_missed"
  unfolding tracker_update_no_detections by code_simp

lemma missed_twice: "tracker_update short_memory_config one_track_missed [] = Inr (no_track 3)"
  unfolding tracker_update_no_detections by code_simp

lemma missed_after: "tracker_update short_memory_config (no_track 3) [] = Inr (no_track 4)"
  unfolding tracker_update_no_detections by code_simp

lemma unmatched_no_detections: "unmatched cfg s [] tid"
  by (simp add: unmatched_def associate_no_detections)

lemma first_track_predicted: "predict_track default_config first_track = first_track_predicted"
  by code_simp

lemma created_in_update_unassociated:
  "associate_detections cfg (predicted cfg s) detections = Inr [] \<Longrightarrow>
     created_in_update cfg s detections =
       spawned_ids cfg {} ((predicted cfg s)\<lparr> current_detections := Some detections \<rparr>)
         (enumerate 0 detections)"
  by (simp add: created_in_update_def)

lemma created_first: "created_in_update default_config new_tracker [(100, 200, 4/5), (300, 300, 4/5)] = [0, 1]"
proof -
  have a: "associate_detections default_config (predicted default_config new_tracker)
          [(100, 200, 4/5), (300, 300, 4/5)] = Inr []"
    by (rule associate_no_tracks) (simp add: predicted_def predict_tracks_def new_tracker_def)
  show ?thesis
    unfolding created_in_update_unassociated [OF a] by code_simp
qed

lemma created_second: "created_in_update default_config two_tracks [(5000, 5000, 4/5)] = [2]"
proof -
  have a: "associate_detections default_config (predicted default_config two_tracks)
          [(5000, 5000, 4/5)] = Inr []"
    by (simp add: two_tracks_predicted associate_far)
  show ?thesis
    unfolding created_in_update_unassociated [OF a] by code_simp
qed

subsection \<open>The claims at concrete inputs\<close>

text \<open>
  Claim C1 fails on the code: \<open>_update_tracks\<close> reads the measurement from
  \<open>self._current_detections\<close>, which \<open>_create_new_tracks\<close> sets only later in the same
  call, so the correction uses the detections of the previous call. After a first call
  with the detection \<open>(100, 200)\<close>, a call with \<open>(110, 200)\<close> matches the track to
  that detection but leaves its position at \<open>(100, 200)\<close>, the correction by the stored
  detection; the correction by the current detection would move it to \<open>23110/211\<close>. A
  call with two detections, the track matched to the second, raises \<open>IndexError\<close>,
  since the stored list has one element.
\<close>

theorem correction_uses_stored_detections:
  "tracker_update default_config new_tracker [(100, 200, 4/5)] = Inr one_track \<and>
   associate_detections default_config (predicted default_config one_track) [(110, 200, 9/10)]
     = Inr [(0, 0)] \<and>
   tracker_update default_config one_track [(110, 200, 9/10)] = Inr one_track_stale \<and>
   map state (tracking_states one_track_stale) = [[100, 200, 0, 0]] \<and>
   state (kalman_correction default_config (predict_track default_config first_track) (100, 200))
     = [100, 200, 0, 0] \<and>
   state (kalman_correction default_config (predict_track default_config first_track) (110, 200))
     = [23110/211, 200, 1000/211, 0] \<and>
   tracker_update default_config one_track [(300, 300, 9/10), (100, 200, 9/10)] = Inl IndexError"
  by (simp add: first_update second_update_stale second_update_index_error one_track_predicted
      associate_moved first_track_predicted correction_stale correction_current)
     (simp add: one_track_stale_def tracking_states_def first_track_predicted_def)

text \<open>
  The confidence bound on a concrete call: a detection with confidence 5 creates a track
  whose confidence is 1 when \<open>update\<close> returns.
\<close>

theorem confidence_in_unit_interval_witness:
  "tracker_update default_config new_tracker [(100, 200, 5)] = Inr clamped_track \<and>
   list_all (\<lambda>track. 0 \<le> confidence track \<and> confidence track \<le> 1) (tracking_states clamped_track)"
  using confidence_in_unit_interval [OF first_update_loud] first_update_loud by simp

text \<open>
  The matching on a concrete call: one track and two detections inside the gate; the
  track is matched to the nearer detection only.
\<close>

theorem association_one_to_one_witness:
  "associate_detections default_config one_track_predicted [(300, 300, 9/10), (100, 200, 9/10)]
     = Inr [(0, 1)] \<and>
   distinct (map fst [(0::int, 1::nat)]) \<and> distinct (map snd [(0::int, 1::nat)])"
  using association_one_to_one [OF associate_two_detections] associate_two_detections by simp

text \<open>
  Retirement on a concrete run with \<open>max_missed_frames = 1\<close>: the track created by
  the first call is not matched in the next two calls, and the call after them returns
  no track.
\<close>

theorem missed_track_retired_witness:
  "tracker_run short_memory_config new_tracker [[(100, 200, 4/5)]] = Inr one_track \<and>
   0 \<in> fst ` set (tracks one_track) \<and>
   missed_streak short_memory_config 0 one_track [[], []] \<and>
   tracker_run short_memory_config one_track [[], []] = Inr (no_track 3) \<and>
   int (length [[], [] :: detection list]) > max_missed_frames short_memory_config \<and>
   tracker_update short_memory_config (no_track 3) [] = Inr (no_track 4) \<and>
   0 \<notin> track_id ` set (tracking_states (no_track 4))"
proof -
  have reach: "tracker_run short_memory_config new_tracker [[(100, 200, 4/5)]] = Inr one_track"
    by (simp add: first_update_short)
  have present: "0 \<in> fst ` set (tracks one_track)"
    by (simp add: one_track_def)
  have streak: "missed_streak short_memory_config 0 one_track [[], []]"
    by (simp add: unmatched_no_detections missed_once missed_twice)
  have run: "tracker_run short_memory_config one_track [[], []] = Inr (no_track 3)"
    by (simp add: missed_once missed_twice)
  have long: "int (length [[], [] :: detection list]) > max_missed_frames short_memory_config"
    by (simp add: short_memory_config_def)
  show ?thesis
    using reach present streak run long missed_after
      missed_track_retired [OF reach present streak run long missed_after]
    by simp
qed

text \<open>
  Identifiers on a concrete run: the first call creates the tracks 0 and 1, the second
  call the track 2.
\<close>

theorem track_ids_unique_increasing_witness:
  "tracker_run default_config new_tracker
     [[(100, 200, 4/5), (300, 300, 4/5)], [(5000, 5000, 4/5)]] = Inr three_tracks \<and>
   created_in_run default_config new_tracker
     [[(100, 200, 4/5), (300, 300, 4/5)], [(5000, 5000, 4/5)]] = [0, 1, 2] \<and>
   map track_id (tracking_states three_tracks) = [0, 1, 2] \<and>
   sorted_wrt (<) (created_in_run default_config new_tracker
     [[(100, 200, 4/5), (300, 300, 4/5)], [(5000, 5000, 4/5)]]) \<and>
   distinct (map track_id (tracking_states three_tracks)) \<and>
   set (map track_id (tracking_states three_tracks)) \<subseteq>
     set (created_in_run default_config new_tracker
       [[(100, 200, 4/5), (300, 300, 4/5)], [(5000, 5000, 4/5)]])"
proof -
  have run: "tracker_run default_config new_tracker
      [[(100, 200, 4/5), (300, 300, 4/5)], [(5000, 5000, 4/5)]] = Inr three_tracks"
    by (simp add: first_update_two second_update_far)
  have created: "created_in_run default_config new_tracker
      [[(100, 200, 4/5), (300, 300, 4/5)], [(5000, 5000, 4/5)]] = [0, 1, 2]"
    by (simp add: first_update_two second_update_far created_first created_second)
  have ids: "map track_id (tracking_states three_tracks) = [0, 1, 2]"
    by (simp add: three_tracks_def tracking_states_def first_track_def first_track_predicted_def)
  show ?thesis
    using run created ids track_ids_unique_increasing [OF run] by simp
qed

section \<open>Properties of the ballistics gate\<close>

lemma velocity_loop_returns:
  "pixels_per_meter \<noteq> 0 \<Longrightarrow> \<exists>c. velocity_loop cfg pixels_per_meter pairs counters = Inr c"
proof (induction pairs arbitrary: counters)
  case Nil
  then show ?case by simp
next
  case (Cons p pairs)
  obtain prev cur where p: "p = (prev, cur)" by (cases p)
  obtain v t where c: "counters = (v, t)" by (cases counters)
  show ?case
    using Cons.IH [OF Cons.prems] Cons.prems unfolding p c
    by (simp add: Let_def)
qed

lemma validate_velocity_constraints_returns:
  assumes "pixels_per_meter \<noteq> 0"
  shows "\<exists>v. validate_velocity_constraints cfg points pixels_per_meter = Inr v"
proof (cases "length points < 2")
  case True
  then show ?thesis by (simp add: validate_velocity_constraints_def)
next
  case False
  from velocity_loop_returns [OF assms] obtain c where
    "velocity_loop cfg pixels_per_meter (consecutive points) (0, 0) = Inr c"
    by blast
  with False show ?thesis
    by (cases c) (simp add: validate_velocity_constraints_def)
qed

text \<open>
  With enhanced physics enabled and enough points, \<open>validate_trajectory\<close> never returns
  a \<open>PhysicsValidation\<close>: it raises \<open>AttributeError\<close> when it reads the trajectory
  weight (or \<open>ZeroDivisionError\<close> before that, when \<open>pixels_per_meter\<close> is zero).
\<close>

lemma validate_trajectory_raises:
  assumes "enable_enhanced_physics cfg"
    and "min_points_for_fit cfg \<le> int (length points)"
  shows "validate_trajectory np_polyfit cfg points pixels_per_meter =
           (if pixels_per_meter = 0
            then validate_trajectory np_polyfit cfg points 0 else Inl AttributeError)"
    and "\<exists>e. validate_trajectory np_polyfit cfg points pixels_per_meter = Inl e"
proof -
  have go: "validate_trajectory np_polyfit cfg points ppm =
      (case validate_velocity_constraints cfg points ppm of
         Inl e \<Rightarrow> Inl e | Inr velocity \<Rightarrow> Inl AttributeError)" for ppm
    using assms
    by (simp add: validate_trajectory_def trajectory_score_weight_def Let_def split: sum.splits)
  show "validate_trajectory np_polyfit cfg points pixels_per_meter =
           (if pixels_per_meter = 0
            then validate_trajectory np_polyfit cfg points 0 else Inl AttributeError)"
  proof (cases "pixels_per_meter = 0")
    case True
    then show ?thesis by simp
  next
    case False
    from validate_velocity_constraints_returns [OF False] obtain v where
      "validate_velocity_constraints cfg points pixels_per_meter = Inr v" by blast
    with False show ?thesis by (simp add: go)
  qed
  show "\<exists>e. validate_trajectory np_polyfit cfg points pixels_per_meter = Inl e"
    by (cases "validate_velocity_constraints cfg points pixels_per_meter") (simp_all add: go)
qed

text \<open>
  Claim C2 fails on the code. With the default configuration (enhanced physics enabled,
  at least five points required) the twenty points of the module's own self-test and
  100 pixels per metre make \<open>validate_trajectory\<close> raise \<open>AttributeError\<close>, whatever
  \<open>np.polyfit\<close> returns: no \<open>PhysicsValidation\<close> and no composite score is produced.
\<close>

theorem validate_trajectory_attribute_error:
  "validate_trajectory np_polyfit default_config self_test_points 100 = Inl AttributeError"
proof -
  have "enable_enhanced_physics default_config"
    and "min_points_for_fit default_config \<le> int (length self_test_points)"
    by (simp_all add: default_config_def self_test_points_def)
  from validate_trajectory_raises(1) [OF this] show ?thesis by simp
qed

end
